theory Spec2Isabelle
  imports Main
begin

section \<open>Data model\<close>

text \<open>
  The library \<^verbatim>\<open>then.hpp\<close> chains callbacks onto the futures of the C++ standard
  library. Its templates recurse over the static type of the source, so the model keeps
  the static types (\<open>ty\<close>) next to the run-time values (\<open>val\<close>).

  A future, a shared future and a promise are handles to a shared state; a handle without
  shared state (default constructed or moved from) is \<open>None\<close>. Shared states live in a
  store indexed by address.
\<close>

datatype future_errc =
  broken_promise | future_already_retrieved | promise_already_satisfied | no_state

text \<open>What an \<^verbatim>\<open>exception_ptr\<close> can hold: a \<^verbatim>\<open>future_error\<close> of the
  standard library, or an exception thrown by user code, told apart by a number.\<close>

datatype exn = future_error future_errc | thrown nat

datatype ty = Payload | Void | FutureT ty | SharedFutureT ty | PromiseT ty

type_synonym addr = nat

datatype 'a val =
    Value 'a
  | Unit
  | Future "addr option"
  | SharedFuture "addr option"
  | Promise "addr option"

text \<open>The value category of an argument expression, as far as overload resolution in
  \<^verbatim>\<open>recursive_get\<close> looks at it: an rvalue (a temporary, or \<^verbatim>\<open>move(x)\<close>), a
  named object, or a reference to a const object.\<close>

datatype cat = rvalue | lvalue | const_lvalue

text \<open>A callback. \<open>result_of\<close> is what \<^verbatim>\<open>fn_result_of<Functor>\<close> of
  \<^verbatim>\<open>function_traits.hpp\<close> yields for it (that header is not part of the sources at
  hand, so the declared result type is a field of the callback); \<open>ident\<close> tells callbacks
  apart in the record of invocations.\<close>

record 'a callback =
  ident :: nat
  result_of :: ty
  body :: "'a val list \<Rightarrow> exn + 'a val"

datatype launch = async | deferred | deferred_or_async

text \<open>The unit of work that \<^verbatim>\<open>then\<close> hands to \<^verbatim>\<open>std::async\<close>: the lambda
  calling \<^verbatim>\<open>then_helper<T, Functor>::dispatch(s, f)\<close>, with \<open>T\<close>, the source and the
  callback it captured.\<close>

datatype 'a task = Then_task ty "'a val" "'a callback"

datatype 'a content = Pending | Ready "exn + 'a val" | Task launch "'a task"

record 'a shared_state =
  content :: "'a content"
  retrieved :: bool

text \<open>A thread that has been spawned and has not run yet. \<open>Thread\<close> is a thread
  detached by \<^verbatim>\<open>then\<close>: the promise it settles, the promise's type \<open>P\<close>, and the source
  type, source and callback of the chain. \<open>Async_thread\<close> is the thread that
  \<^verbatim>\<open>std::async\<close> starts for a task; it settles the shared state that holds the task.\<close>

datatype 'a thread = Thread "addr option" ty ty "'a val" "'a callback" | Async_thread addr

record 'a state =
  shared_states :: "'a shared_state list"
  calls :: "(nat \<times> 'a val list) list"
  threads :: "'a thread list"

text \<open>
  How a call ends: it returns, it raises, it blocks on a shared state that nothing in
  the calling thread will make ready, the call has no viable overload (the program is
  ill-formed: a C++ compiler rejects the instantiation, so nothing runs), the process
  is aborted (an \<^verbatim>\<open>assert\<close> fails, or an exception leaves a thread), or the model's
  fuel is used up.
\<close>

datatype ('r, 'a) outcome =
    Return 'r "'a state"
  | Raise exn "'a state"
  | Blocked
  | Ill_formed
  | Aborted
  | Out_of_fuel

definition and_then ::
  "('r, 'a) outcome \<Rightarrow> ('r \<Rightarrow> 'a state \<Rightarrow> ('q, 'a) outcome) \<Rightarrow> ('q, 'a) outcome" where
  "and_then m k = (case m of
       Return r \<sigma> \<Rightarrow> k r \<sigma>
     | Raise e \<sigma> \<Rightarrow> Raise e \<sigma>
     | Blocked \<Rightarrow> Blocked
     | Ill_formed \<Rightarrow> Ill_formed
     | Aborted \<Rightarrow> Aborted
     | Out_of_fuel \<Rightarrow> Out_of_fuel)"

text \<open>\<^verbatim>\<open>try { m } catch (...) { h(current_exception()) }\<close>\<close>

definition try_catch ::
  "('r, 'a) outcome \<Rightarrow> (exn \<Rightarrow> 'a state \<Rightarrow> ('r, 'a) outcome) \<Rightarrow> ('r, 'a) outcome" where
  "try_catch m h = (case m of Raise e \<sigma> \<Rightarrow> h e \<sigma> | other \<Rightarrow> other)"

section \<open>The primitives of the standard library\<close>

text \<open>
  \<open>waiter\<close> is the type of the blocking wait on a shared state: it makes the state
  ready (running a deferred task, joining an asynchronous one) and hands out the stored
  value or raises the stored exception. It is defined last (\<open>wait\<close>), because running a
  task runs the code of \<^verbatim>\<open>then.hpp\<close>; the functions of the library take it as their
  first argument.
\<close>

type_synonym 'a waiter = "addr \<Rightarrow> 'a state \<Rightarrow> ('a val, 'a) outcome"

definition set_content :: "addr \<Rightarrow> 'a content \<Rightarrow> 'a state \<Rightarrow> 'a state" where
  "set_content a c \<sigma> =
     \<sigma>\<lparr>shared_states := (shared_states \<sigma>)[a := (shared_states \<sigma> ! a)\<lparr>content := c\<rparr>]\<rparr>"

definition push :: "'a shared_state \<Rightarrow> 'a state \<Rightarrow> 'a state" where
  "push s \<sigma> = \<sigma>\<lparr>shared_states := shared_states \<sigma> @ [s]\<rparr>"

definition alloc :: "'a shared_state \<Rightarrow> 'a state \<Rightarrow> addr \<times> 'a state" where
  "alloc s \<sigma> = (length (shared_states \<sigma>), push s \<sigma>)"

text \<open>\<^verbatim>\<open>future<T>::get()\<close>. On a future without shared state the standard leaves the
  behaviour undefined and recommends throwing \<^verbatim>\<open>future_error(no_state)\<close>, which is
  what the model does. The call releases the shared state, so the caller's future is
  \<open>None\<close> from then on; no function below uses a future after its \<^verbatim>\<open>get()\<close>.\<close>

definition future_get :: "'a waiter \<Rightarrow> addr option \<Rightarrow> 'a state \<Rightarrow> ('a val, 'a) outcome" where
  "future_get w h \<sigma> = (case h of
       None \<Rightarrow> Raise (future_error no_state) \<sigma>
     | Some a \<Rightarrow> w a \<sigma>)"

text \<open>\<^verbatim>\<open>shared_future<T>::get()\<close>: the same wait; the result is a reference to the
  const value in the shared state, which the callers below record as \<open>const_lvalue\<close>.\<close>

definition shared_future_get ::
  "'a waiter \<Rightarrow> addr option \<Rightarrow> 'a state \<Rightarrow> ('a val, 'a) outcome" where
  "shared_future_get w h \<sigma> = (case h of
       None \<Rightarrow> Raise (future_error no_state) \<sigma>
     | Some a \<Rightarrow> w a \<sigma>)"

text \<open>\<^verbatim>\<open>promise<T>::get_future()\<close>: at most once per shared state.\<close>

definition mark_retrieved :: "addr \<Rightarrow> 'a state \<Rightarrow> 'a state" where
  "mark_retrieved a \<sigma> =
     \<sigma>\<lparr>shared_states := (shared_states \<sigma>)[a := (shared_states \<sigma> ! a)\<lparr>retrieved := True\<rparr>]\<rparr>"

definition get_future :: "addr option \<Rightarrow> 'a state \<Rightarrow> ('a val, 'a) outcome" where
  "get_future p \<sigma> = (case p of
       None \<Rightarrow> Raise (future_error no_state) \<sigma>
     | Some a \<Rightarrow>
         if a < length (shared_states \<sigma>) then
           if retrieved (shared_states \<sigma> ! a) then Raise (future_error future_already_retrieved) \<sigma>
           else Return (Future (Some a)) (mark_retrieved a \<sigma>)
         else Raise (future_error no_state) \<sigma>)"

text \<open>\<^verbatim>\<open>promise<T>::set_value\<close> and \<^verbatim>\<open>promise<T>::set_exception\<close>: a shared state is
  settled once.\<close>

definition settle :: "addr option \<Rightarrow> exn + 'a val \<Rightarrow> 'a state \<Rightarrow> (unit, 'a) outcome" where
  "settle p r \<sigma> = (case p of
       None \<Rightarrow> Raise (future_error no_state) \<sigma>
     | Some a \<Rightarrow>
         if a < length (shared_states \<sigma>) then
           (case content (shared_states \<sigma> ! a) of
              Pending \<Rightarrow> Return () (set_content a (Ready r) \<sigma>)
            | _ \<Rightarrow> Raise (future_error promise_already_satisfied) \<sigma>)
         else Raise (future_error no_state) \<sigma>)"

definition set_value :: "addr option \<Rightarrow> 'a val \<Rightarrow> 'a state \<Rightarrow> (unit, 'a) outcome" where
  "set_value p v \<sigma> = settle p (Inr v) \<sigma>"

definition set_exception :: "addr option \<Rightarrow> exn \<Rightarrow> 'a state \<Rightarrow> (unit, 'a) outcome" where
  "set_exception p e \<sigma> = settle p (Inl e) \<sigma>"

text \<open>Spawning a thread: it runs later, at a moment the scheduler chooses
  (\<open>run_thread\<close>).\<close>

definition spawn :: "'a thread \<Rightarrow> 'a state \<Rightarrow> 'a state" where
  "spawn t \<sigma> = \<sigma>\<lparr>threads := threads \<sigma> @ [t]\<rparr>"

text \<open>\<^verbatim>\<open>std::async(policy, task)\<close>: a new shared state that holds the task, and the
  future attached to it. Under \<open>deferred\<close> the task runs in the first wait on the state,
  on the waiting thread. Under \<open>async\<close> the call starts a thread for the task: the thread
  may run at any moment from then on, and a wait on the state joins it, so at the latest
  it runs then. Under \<open>deferred_or_async\<close> the implementation chooses between the two;
  deferred execution is the schedule of the asynchronous one in which the thread runs
  when it is joined, so the model covers both by starting a thread.\<close>

definition std_async :: "launch \<Rightarrow> 'a task \<Rightarrow> 'a state \<Rightarrow> ('a val, 'a) outcome" where
  "std_async policy t \<sigma> =
     (case alloc \<lparr>content = Task policy t, retrieved = True\<rparr> \<sigma> of
        (a, \<sigma>') \<Rightarrow>
          Return (Future (Some a)) (if policy = deferred then \<sigma>' else spawn (Async_thread a) \<sigma>'))"

text \<open>\<^verbatim>\<open>make_shared<promise<P>>()\<close>: a new promise with a fresh, unsettled shared
  state.\<close>

definition make_shared_promise :: "'a state \<Rightarrow> addr option \<times> 'a state" where
  "make_shared_promise \<sigma> =
     (case alloc \<lparr>content = Pending, retrieved = False\<rparr> \<sigma> of (a, \<sigma>') \<Rightarrow> (Some a, \<sigma>'))"

text \<open>\<^verbatim>\<open>thread(body).detach()\<close>\<close>

definition spawn_detached :: "'a thread \<Rightarrow> 'a state \<Rightarrow> 'a state" where
  "spawn_detached t \<sigma> = spawn t \<sigma>"

section \<open>\<^verbatim>\<open>recursive_get\<close>\<close>

text \<open>
  \<open>recursive_get w K (c, x)\<close> is the call \<^verbatim>\<open>recursive_get<K>::get(x)\<close> with an argument
  of value category \<open>c\<close>. The specialisation is chosen by \<open>K\<close>, the overload by the
  category and the class of the argument:
  \<^item> \<^verbatim>\<open>get(future<K> &&)\<close> takes an rvalue future only;
  \<^item> \<^verbatim>\<open>get(shared_future<K>)\<close> takes a shared future of any category (it is copied);
  \<^item> \<^verbatim>\<open>get(promise<K> &&)\<close>, of the primary template only, takes an rvalue promise.
  A reference to a const future fits none of them: it binds to no rvalue reference and
  \<^verbatim>\<open>shared_future\<close> has no constructor from it.
  \<^verbatim>\<open>future::get\<close> returns a temporary, \<^verbatim>\<open>shared_future::get\<close> a reference to const.
\<close>

datatype handle_class = a_future | a_shared_future | a_promise

fun class_of :: "'a val \<Rightarrow> handle_class option" where
  "class_of (Future k) = Some a_future"
| "class_of (SharedFuture k) = Some a_shared_future"
| "class_of (Promise k) = Some a_promise"
| "class_of x = None"

datatype overload = by_future_rvalue | by_shared_future | by_promise_rvalue | no_viable_overload

fun select_overload :: "bool \<Rightarrow> cat \<times> handle_class option \<Rightarrow> overload" where
  "select_overload primary (rvalue, Some a_future) = by_future_rvalue"
| "select_overload primary (c, Some a_shared_future) = by_shared_future"
| "select_overload primary (rvalue, Some a_promise) =
     (if primary then by_promise_rvalue else no_viable_overload)"
| "select_overload primary (c, x) = no_viable_overload"

text \<open>Whether \<^verbatim>\<open>recursive_get<K>::get\<close> can be instantiated for an argument of the given
  category and class: the call has a viable overload, and so has the call in its body,
  whose argument is what \<^verbatim>\<open>get()\<close> of the selected overload returns. This is decided by
  the compiler, from the types alone.\<close>

fun instantiates :: "ty \<Rightarrow> cat \<times> handle_class option \<Rightarrow> bool" where
  "instantiates (FutureT P) x = (case select_overload False x of
       by_future_rvalue \<Rightarrow> instantiates P (rvalue, Some a_future)
     | by_shared_future \<Rightarrow> instantiates P (const_lvalue, Some a_future)
     | _ \<Rightarrow> False)"
| "instantiates (SharedFutureT P) x = (case select_overload False x of
       by_future_rvalue \<Rightarrow> instantiates P (rvalue, Some a_shared_future)
     | by_shared_future \<Rightarrow> instantiates P (const_lvalue, Some a_shared_future)
     | _ \<Rightarrow> False)"
| "instantiates Payload x = (select_overload True x \<noteq> no_viable_overload)"
| "instantiates Void x = (select_overload True x \<noteq> no_viable_overload)"
| "instantiates (PromiseT P) x = (select_overload True x \<noteq> no_viable_overload)"

fun handle_of :: "'a val \<Rightarrow> addr option" where
  "handle_of (Future k) = k"
| "handle_of (SharedFuture k) = k"
| "handle_of (Promise k) = k"
| "handle_of x = None"

definition static :: "cat \<times> 'a val \<Rightarrow> cat \<times> handle_class option" where
  "static x = (fst x, class_of (snd x))"

text \<open>The primary template: \<open>K\<close> is not a future type.\<close>

definition recursive_get_primary ::
  "'a waiter \<Rightarrow> cat \<times> 'a val \<Rightarrow> 'a state \<Rightarrow> ('a val, 'a) outcome" where
  "recursive_get_primary w x \<sigma> = (case select_overload True (static x) of
       by_future_rvalue \<Rightarrow> future_get w (handle_of (snd x)) \<sigma>
     | by_shared_future \<Rightarrow> shared_future_get w (handle_of (snd x)) \<sigma>
     | by_promise_rvalue \<Rightarrow>
         and_then (get_future (handle_of (snd x)) \<sigma>) (\<lambda>k \<sigma>'. future_get w (handle_of k) \<sigma>')
     | no_viable_overload \<Rightarrow> Ill_formed)"

text \<open>The specialisations for \<^verbatim>\<open>future<P>\<close> and \<^verbatim>\<open>shared_future<P>\<close>. A call that
  cannot be instantiated does nothing: it is ill-formed whatever the argument holds.
  Where the argument is a shared future, the code returns a reference into its shared
  state and the model the value referred to; the reference is good for as long as some
  shared future keeps that state alive, which the model does not follow.\<close>

fun recursive_get :: "'a waiter \<Rightarrow> ty \<Rightarrow> cat \<times> 'a val \<Rightarrow> 'a state \<Rightarrow> ('a val, 'a) outcome" where
  "recursive_get w (FutureT P) x \<sigma> =
     (if \<not> instantiates (FutureT P) (static x) then Ill_formed
      else (case select_overload False (static x) of
         by_future_rvalue \<Rightarrow>
           and_then (future_get w (handle_of (snd x)) \<sigma>) (\<lambda>v \<sigma>'. recursive_get w P (rvalue, v) \<sigma>')
       | by_shared_future \<Rightarrow>
           and_then (shared_future_get w (handle_of (snd x)) \<sigma>)
             (\<lambda>v \<sigma>'. recursive_get w P (const_lvalue, v) \<sigma>')
       | _ \<Rightarrow> Ill_formed))"
| "recursive_get w (SharedFutureT P) x \<sigma> =
     (if \<not> instantiates (SharedFutureT P) (static x) then Ill_formed
      else (case select_overload False (static x) of
         by_future_rvalue \<Rightarrow>
           and_then (future_get w (handle_of (snd x)) \<sigma>) (\<lambda>v \<sigma>'. recursive_get w P (rvalue, v) \<sigma>')
       | by_shared_future \<Rightarrow>
           and_then (shared_future_get w (handle_of (snd x)) \<sigma>)
             (\<lambda>v \<sigma>'. recursive_get w P (const_lvalue, v) \<sigma>')
       | _ \<Rightarrow> Ill_formed))"
| "recursive_get w Payload x \<sigma> = recursive_get_primary w x \<sigma>"
| "recursive_get w Void x \<sigma> = recursive_get_primary w x \<sigma>"
| "recursive_get w (PromiseT P) x \<sigma> = recursive_get_primary w x \<sigma>"

section \<open>\<^verbatim>\<open>optional_get\<close> and \<^verbatim>\<open>then_invoke_helper\<close>\<close>

text \<open>\<open>optional_get w T t\<close> is \<^verbatim>\<open>optional_get<T>::get(t)\<close>. The specialisation for
  \<^verbatim>\<open>future<R>\<close> passes \<^verbatim>\<open>move(r)\<close> on, the one for \<^verbatim>\<open>shared_future<R>\<close> its
  parameter \<^verbatim>\<open>r\<close>.\<close>

fun optional_get :: "'a waiter \<Rightarrow> ty \<Rightarrow> 'a val \<Rightarrow> 'a state \<Rightarrow> ('a val, 'a) outcome" where
  "optional_get w (FutureT R) r \<sigma> = recursive_get w R (rvalue, r) \<sigma>"
| "optional_get w (SharedFutureT R) r \<sigma> = recursive_get w R (lvalue, r) \<sigma>"
| "optional_get w T t \<sigma> = Return t \<sigma>"

text \<open>The call \<^verbatim>\<open>f(args...)\<close>: the invocation is recorded, then the callback returns or
  raises.\<close>

definition record_call :: "'a callback \<Rightarrow> 'a val list \<Rightarrow> 'a state \<Rightarrow> 'a state" where
  "record_call f args \<sigma> = \<sigma>\<lparr>calls := calls \<sigma> @ [(ident f, args)]\<rparr>"

definition invoke :: "'a callback \<Rightarrow> 'a val list \<Rightarrow> 'a state \<Rightarrow> ('a val, 'a) outcome" where
  "invoke f args \<sigma> =
     (case body f args of
        Inl e \<Rightarrow> Raise e (record_call f args \<sigma>)
      | Inr v \<Rightarrow> Return v (record_call f args \<sigma>))"

text \<open>Whether \<^verbatim>\<open>optional_get<R>::get\<close> can be instantiated: for a future type, whether
  the call of \<^verbatim>\<open>recursive_get\<close> in its body can.\<close>

fun optional_get_instantiates :: "ty \<Rightarrow> bool" where
  "optional_get_instantiates (FutureT R) = instantiates R (rvalue, Some a_future)"
| "optional_get_instantiates (SharedFutureT R) = instantiates R (lvalue, Some a_shared_future)"
| "optional_get_instantiates T = True"

definition then_invoke_helper_instantiates :: "'a callback \<Rightarrow> bool" where
  "then_invoke_helper_instantiates f \<longleftrightarrow>
     result_of f = Void \<or> optional_get_instantiates (result_of f)"

definition then_invoke_helper ::
  "'a waiter \<Rightarrow> 'a callback \<Rightarrow> 'a val list \<Rightarrow> 'a state \<Rightarrow> ('a val, 'a) outcome" where
  "then_invoke_helper w f args \<sigma> =
     (if \<not> then_invoke_helper_instantiates f then Ill_formed
      else if result_of f = Void then and_then (invoke f args \<sigma>) (\<lambda>r \<sigma>'. Return Unit \<sigma>')
      else and_then (invoke f args \<sigma>) (\<lambda>r \<sigma>'. optional_get w (result_of f) r \<sigma>'))"

section \<open>\<^verbatim>\<open>then_helper\<close>\<close>

text \<open>What is left of a type once its future layers are resolved: the type of
  \<^verbatim>\<open>recursive_get<T>::get\<close>, up to references.\<close>

fun innermost :: "ty \<Rightarrow> ty" where
  "innermost (FutureT R) = innermost R"
| "innermost (SharedFutureT R) = innermost R"
| "innermost T = T"

text \<open>Whether \<^verbatim>\<open>then_helper<T, Functor>::dispatch\<close> can be instantiated for a source of
  the given class. The specialisation for \<^verbatim>\<open>void\<close> calls \<^verbatim>\<open>s.get()\<close> and invokes the
  callback with no argument. The primary template passes the result of
  \<^verbatim>\<open>recursive_get<T>::get\<close> to the callback, so that call must have a viable overload and
  its result must not be \<^verbatim>\<open>void\<close> (a source such as \<^verbatim>\<open>future<future<void>>\<close> is
  ill-formed there). In both, the invocation of the callback must be well-formed.\<close>

definition then_helper_instantiates :: "ty \<Rightarrow> handle_class option \<Rightarrow> 'a callback \<Rightarrow> bool" where
  "then_helper_instantiates T c f \<longleftrightarrow>
     (case c of
        Some a_future \<Rightarrow> T = Void \<or> (innermost T \<noteq> Void \<and> instantiates T (rvalue, c))
      | Some a_shared_future \<Rightarrow> T = Void \<or> (innermost T \<noteq> Void \<and> instantiates T (lvalue, c))
      | _ \<Rightarrow> False) \<and>
     then_invoke_helper_instantiates f"

text \<open>\<open>then_helper_dispatch w T s f\<close> is \<^verbatim>\<open>then_helper<T, Functor>::dispatch(s, f)\<close>;
  the overload is chosen by the source \<open>s\<close>, a future (passed on as \<^verbatim>\<open>move(s)\<close>) or a
  shared future (passed on as the parameter \<^verbatim>\<open>s\<close>).\<close>

definition then_helper_dispatch ::
  "'a waiter \<Rightarrow> ty \<Rightarrow> 'a val \<Rightarrow> 'a callback \<Rightarrow> 'a state \<Rightarrow> ('a val, 'a) outcome" where
  "then_helper_dispatch w T s f \<sigma> =
     (if \<not> then_helper_instantiates T (class_of s) f then Ill_formed
      else (case s of
         Future k \<Rightarrow>
           if T = Void then and_then (future_get w k \<sigma>) (\<lambda>u \<sigma>'. then_invoke_helper w f [] \<sigma>')
           else and_then (recursive_get w T (rvalue, s) \<sigma>) (\<lambda>x \<sigma>'. then_invoke_helper w f [x] \<sigma>')
       | SharedFuture k \<Rightarrow>
           if T = Void then and_then (shared_future_get w k \<sigma>) (\<lambda>u \<sigma>'. then_invoke_helper w f [] \<sigma>')
           else and_then (recursive_get w T (lvalue, s) \<sigma>) (\<lambda>x \<sigma>'. then_invoke_helper w f [x] \<sigma>')
       | _ \<Rightarrow> Ill_formed))"

section \<open>Waiting on a shared state\<close>

text \<open>
  The wait on the shared state at address \<open>a\<close>. A pending state blocks the caller; a
  ready state hands out what it holds. A state that still holds its task makes the caller
  run it (a deferred task) or join the thread that runs it (an asynchronous task whose
  thread has not run yet: the thread runs now, at the latest); either way the task runs
  once and the state keeps its result. A task may wait on further states, which may hold
  tasks: the fuel bounds how deep this goes.
\<close>

primrec wait :: "nat \<Rightarrow> addr \<Rightarrow> 'a state \<Rightarrow> ('a val, 'a) outcome" where
  "wait 0 a \<sigma> = Out_of_fuel"
| "wait (Suc n) a \<sigma> =
     (if a < length (shared_states \<sigma>) then
        (case content (shared_states \<sigma> ! a) of
           Pending \<Rightarrow> Blocked
         | Ready r \<Rightarrow> (case r of Inl e \<Rightarrow> Raise e \<sigma> | Inr v \<Rightarrow> Return v \<sigma>)
         | Task policy t \<Rightarrow> (case t of Then_task T s f \<Rightarrow>
             (case then_helper_dispatch (wait n) T s f \<sigma> of
                Return v \<sigma>' \<Rightarrow> Return v (set_content a (Ready (Inr v)) \<sigma>')
              | Raise e \<sigma>' \<Rightarrow> Raise e (set_content a (Ready (Inl e)) \<sigma>')
              | other \<Rightarrow> other)))
      else Raise (future_error no_state) \<sigma>)"

section \<open>\<^verbatim>\<open>then\<close> with a launch policy of the standard library\<close>

text \<open>Each overload hands a unit of work to \<^verbatim>\<open>std::async\<close> and returns the future
  of its result. The unit of work is the call of \<^verbatim>\<open>then_helper<T, Functor>::dispatch\<close>;
  whether that call can be instantiated is decided there (\<open>then_helper_instantiates\<close>),
  so an overload whose unit of work is ill-formed shows it when the work is run.\<close>

definition default_policy :: launch where
  "default_policy = deferred_or_async"

text \<open>\<^verbatim>\<open>then(future<T> &&s, Functor f, launch policy)\<close>: the future is moved into
  the unit of work, which from then on is the only holder of it.\<close>

definition then_future ::
  "ty \<Rightarrow> addr option \<Rightarrow> 'a callback \<Rightarrow> launch \<Rightarrow> 'a state \<Rightarrow> ('a val, 'a) outcome" where
  "then_future T s f policy \<sigma> = std_async policy (Then_task T (Future s) f) \<sigma>"

text \<open>\<^verbatim>\<open>then(future<T> &s, Functor f, launch policy)\<close>: \<^verbatim>\<open>then(move(s), f, policy)\<close>.
  The second component of the result is the caller's future \<^verbatim>\<open>s\<close> after the call: it
  has been moved from and has no shared state.\<close>

definition then_future_ref ::
  "ty \<Rightarrow> addr option \<Rightarrow> 'a callback \<Rightarrow> launch \<Rightarrow> 'a state \<Rightarrow> ('a val \<times> 'a val, 'a) outcome" where
  "then_future_ref T s f policy \<sigma> =
     and_then (then_future T s f policy \<sigma>) (\<lambda>r \<sigma>'. Return (r, Future None) \<sigma>')"

text \<open>\<^verbatim>\<open>then(shared_future<T> s, Functor f, launch policy)\<close>\<close>

definition then_shared_future ::
  "ty \<Rightarrow> addr option \<Rightarrow> 'a callback \<Rightarrow> launch \<Rightarrow> 'a state \<Rightarrow> ('a val, 'a) outcome" where
  "then_shared_future T s f policy \<sigma> = std_async policy (Then_task T (SharedFuture s) f) \<sigma>"

text \<open>\<^verbatim>\<open>then(promise<T> &s, Functor f, launch policy)\<close>\<close>

definition then_promise ::
  "ty \<Rightarrow> addr option \<Rightarrow> 'a callback \<Rightarrow> launch \<Rightarrow> 'a state \<Rightarrow> ('a val, 'a) outcome" where
  "then_promise T s f policy \<sigma> =
     and_then (get_future s \<sigma>) (\<lambda>k \<sigma>'. then_future T (handle_of k) f policy \<sigma>')"

section \<open>\<^verbatim>\<open>then\<close> with the detached launch policy\<close>

text \<open>\<^verbatim>\<open>enum class then_launch { detached = 4 }\<close>: a scoped enumeration over \<^verbatim>\<open>int\<close>;
  every \<^verbatim>\<open>int\<close> is a value of the type, one of them is named.\<close>

type_synonym then_launch = int

definition detached :: then_launch where
  "detached = 4"

text \<open>The type of \<^verbatim>\<open>then_helper<T, Functor>::dispatch(s, f)\<close>, which the detached
  overloads call \<open>P\<close>, is what is left of the callback's result type once its future
  layers are resolved: \<open>innermost (result_of f)\<close>.\<close>

text \<open>\<open>detached_then_helper_dispatch w P p K s f\<close> is
  \<^verbatim>\<open>detached_then_helper<P>::dispatch(p, s, f)\<close> on a source of type \<open>K\<close>.\<close>

definition detached_then_helper_dispatch ::
  "'a waiter \<Rightarrow> ty \<Rightarrow> addr option \<Rightarrow> ty \<Rightarrow> 'a val \<Rightarrow> 'a callback \<Rightarrow> 'a state \<Rightarrow> (unit, 'a) outcome" where
  "detached_then_helper_dispatch w P p K s f \<sigma> =
     (if P = Void then
        try_catch
          (and_then (then_helper_dispatch w K s f \<sigma>) (\<lambda>u \<sigma>'. set_value p Unit \<sigma>'))
          (\<lambda>e \<sigma>'. set_exception p e \<sigma>')
      else
        try_catch
          (and_then (then_helper_dispatch w K s f \<sigma>) (\<lambda>v \<sigma>'. set_value p v \<sigma>'))
          (\<lambda>e \<sigma>'. set_exception p e \<sigma>'))"

text \<open>What a spawned thread does when it runs. The thread of \<^verbatim>\<open>std::async\<close> runs the
  task of its shared state, unless a wait has run it already, and keeps the result or the
  exception in the state; nothing is left to raise.\<close>

fun run_thread :: "nat \<Rightarrow> 'a thread \<Rightarrow> 'a state \<Rightarrow> (unit, 'a) outcome" where
  "run_thread n (Thread p P K s f) \<sigma> = detached_then_helper_dispatch (wait n) P p K s f \<sigma>"
| "run_thread n (Async_thread a) \<sigma> = (case wait n a \<sigma> of
       Return v \<sigma>' \<Rightarrow> Return () \<sigma>'
     | Raise e \<sigma>' \<Rightarrow> Return () \<sigma>'
     | Blocked \<Rightarrow> Blocked
     | Ill_formed \<Rightarrow> Ill_formed
     | Aborted \<Rightarrow> Aborted
     | Out_of_fuel \<Rightarrow> Out_of_fuel)"

text \<open>\<^verbatim>\<open>then(future<T> &&s, Functor f, then_launch policy)\<close>\<close>

definition then_detached_future ::
  "ty \<Rightarrow> addr option \<Rightarrow> 'a callback \<Rightarrow> then_launch \<Rightarrow> 'a state \<Rightarrow> ('a val, 'a) outcome" where
  "then_detached_future T s f policy \<sigma> =
     (if policy \<noteq> detached then Aborted
      else (case make_shared_promise \<sigma> of (p, \<sigma>') \<Rightarrow>
        get_future p
          (spawn_detached (Thread p (innermost (result_of f)) T (Future s) f) \<sigma>')))"

text \<open>\<^verbatim>\<open>then(future<T> &s, Functor f, then_launch policy)\<close>\<close>

definition then_detached_future_ref ::
  "ty \<Rightarrow> addr option \<Rightarrow> 'a callback \<Rightarrow> then_launch \<Rightarrow> 'a state \<Rightarrow> ('a val \<times> 'a val, 'a) outcome" where
  "then_detached_future_ref T s f policy \<sigma> =
     and_then (then_detached_future T s f policy \<sigma>) (\<lambda>r \<sigma>'. Return (r, Future None) \<sigma>')"

text \<open>\<^verbatim>\<open>then(shared_future<T> s, Functor f, then_launch policy)\<close>\<close>

definition then_detached_shared_future ::
  "ty \<Rightarrow> addr option \<Rightarrow> 'a callback \<Rightarrow> then_launch \<Rightarrow> 'a state \<Rightarrow> ('a val, 'a) outcome" where
  "then_detached_shared_future T s f policy \<sigma> =
     (if policy \<noteq> detached then Aborted
      else (case make_shared_promise \<sigma> of (p, \<sigma>') \<Rightarrow>
        get_future p
          (spawn_detached (Thread p (innermost (result_of f)) T (SharedFuture s) f) \<sigma>')))"

text \<open>\<^verbatim>\<open>then(promise<T> &s, Functor f, then_launch policy)\<close>\<close>

definition then_detached_promise ::
  "ty \<Rightarrow> addr option \<Rightarrow> 'a callback \<Rightarrow> then_launch \<Rightarrow> 'a state \<Rightarrow> ('a val, 'a) outcome" where
  "then_detached_promise T s f policy \<sigma> =
     and_then (get_future s \<sigma>) (\<lambda>k \<sigma>'. then_detached_future T (handle_of k) f policy \<sigma>')"

section \<open>\<^verbatim>\<open>ThenableFuture\<close> and \<^verbatim>\<open>then2\<close>\<close>

text \<open>The arguments of a call of \<^verbatim>\<open>then\<close>: the source with its value category, the
  callback, and a policy of either kind or none. \<open>then_overload\<close> is overload resolution
  among the eight functions above.\<close>

datatype policy_arg = no_policy | std_policy launch | then_policy then_launch

fun then_overload ::
  "ty \<Rightarrow> cat \<times> 'a val \<Rightarrow> 'a callback \<Rightarrow> policy_arg \<Rightarrow> 'a state \<Rightarrow> ('a val, 'a) outcome" where
  "then_overload T (c, s) f (then_policy policy) \<sigma> = (case s of
       Future k \<Rightarrow> (case c of
           rvalue \<Rightarrow> then_detached_future T k f policy \<sigma>
         | lvalue \<Rightarrow>
             and_then (then_detached_future_ref T k f policy \<sigma>) (\<lambda>r \<sigma>'. Return (fst r) \<sigma>')
         | const_lvalue \<Rightarrow> Ill_formed)
     | SharedFuture k \<Rightarrow> then_detached_shared_future T k f policy \<sigma>
     | Promise k \<Rightarrow> (case c of
           lvalue \<Rightarrow> then_detached_promise T k f policy \<sigma>
         | _ \<Rightarrow> Ill_formed)
     | _ \<Rightarrow> Ill_formed)"
| "then_overload T (c, s) f p \<sigma> =
     (let policy = (case p of std_policy l \<Rightarrow> l | _ \<Rightarrow> default_policy) in
      case s of
       Future k \<Rightarrow> (case c of
           rvalue \<Rightarrow> then_future T k f policy \<sigma>
         | lvalue \<Rightarrow> and_then (then_future_ref T k f policy \<sigma>) (\<lambda>r \<sigma>'. Return (fst r) \<sigma>')
         | const_lvalue \<Rightarrow> Ill_formed)
     | SharedFuture k \<Rightarrow> then_shared_future T k f policy \<sigma>
     | Promise k \<Rightarrow> (case c of
           lvalue \<Rightarrow> then_promise T k f policy \<sigma>
         | _ \<Rightarrow> Ill_formed)
     | _ \<Rightarrow> Ill_formed)"

text \<open>\<^verbatim>\<open>ThenableFuture<T>\<close> derives from \<^verbatim>\<open>future<T>\<close> and adds no member data.\<close>

datatype thenable_future = ThenableFuture (base: "addr option")

text \<open>\<^verbatim>\<open>then2(args...)\<close>\<close>

definition then2 ::
  "ty \<Rightarrow> cat \<times> 'a val \<Rightarrow> 'a callback \<Rightarrow> policy_arg \<Rightarrow> 'a state \<Rightarrow> (thenable_future, 'a) outcome" where
  "then2 T x f p \<sigma> =
     and_then (then_overload T x f p \<sigma>) (\<lambda>k \<sigma>'. Return (ThenableFuture (handle_of k)) \<sigma>')"

text \<open>\<^verbatim>\<open>ThenableFuture<T>::then(args...)\<close>\<close>

definition ThenableFuture_then ::
  "ty \<Rightarrow> thenable_future \<Rightarrow> 'a callback \<Rightarrow> policy_arg \<Rightarrow> 'a state \<Rightarrow> (thenable_future, 'a) outcome" where
  "ThenableFuture_then T this f p \<sigma> = then2 T (rvalue, Future (base this)) f p \<sigma>"

section \<open>Stating properties: frames and example states\<close>

text \<open>\<open>frame \<sigma> \<sigma>'\<close>: from \<open>\<sigma>\<close> to \<open>\<sigma>'\<close> shared states were only added, and a state that
  held no task (it was pending or ready) holds what it held. \<open>post m Q\<close>: if the call
  \<open>m\<close> returned or raised, the state it left satisfies \<open>Q\<close>.\<close>

definition frame :: "'a state \<Rightarrow> 'a state \<Rightarrow> bool" where
  "frame \<sigma> \<sigma>' \<longleftrightarrow>
     length (shared_states \<sigma>) \<le> length (shared_states \<sigma>') \<and>
     (\<forall>a < length (shared_states \<sigma>).
        (\<forall>l t. content (shared_states \<sigma> ! a) \<noteq> Task l t) \<longrightarrow>
        content (shared_states \<sigma>' ! a) = content (shared_states \<sigma> ! a))"

definition post :: "('r, 'a) outcome \<Rightarrow> ('a state \<Rightarrow> bool) \<Rightarrow> bool" where
  "post m Q = (case m of Return r \<sigma>' \<Rightarrow> Q \<sigma>' | Raise e \<sigma>' \<Rightarrow> Q \<sigma>' | _ \<Rightarrow> True)"

definition framed :: "'a waiter \<Rightarrow> bool" where
  "framed w \<longleftrightarrow> (\<forall>a \<sigma>. post (w a \<sigma>) (frame \<sigma>))"

text \<open>A store with the given contents, each with its future retrieved, no invocation
  recorded and no thread spawned.\<close>

definition state_of :: "'a content list \<Rightarrow> 'a state" where
  "state_of cs =
     \<lparr>shared_states = map (\<lambda>c. \<lparr>content = c, retrieved = True\<rparr>) cs, calls = [], threads = []\<rparr>"

text \<open>Whether a type is a future wrapper, which is what selects the specialisations of
  \<^verbatim>\<open>optional_get\<close> and \<^verbatim>\<open>recursive_get\<close>.\<close>

fun is_future_type :: "ty \<Rightarrow> bool" where
  "is_future_type (FutureT R) = True"
| "is_future_type (SharedFutureT R) = True"
| "is_future_type T = False"

text \<open>The argument that \<^verbatim>\<open>then_helper\<close> passes to \<^verbatim>\<open>recursive_get\<close>: \<^verbatim>\<open>move(s)\<close>
  for a future, the parameter \<^verbatim>\<open>s\<close> for a shared future.\<close>

definition source_arg :: "'a val \<Rightarrow> cat \<times> 'a val" where
  "source_arg s = (case s of SharedFuture k \<Rightarrow> (lvalue, s) | _ \<Rightarrow> (rvalue, s))"

text \<open>The state that a detached \<^verbatim>\<open>then\<close> leaves: a new unsettled promise whose
  future has been retrieved, and the spawned thread.\<close>

definition detached_state ::
  "ty \<Rightarrow> 'a val \<Rightarrow> 'a callback \<Rightarrow> 'a state \<Rightarrow> 'a state" where
  "detached_state T s f \<sigma> =
     mark_retrieved (length (shared_states \<sigma>))
       (spawn_detached
          (Thread (Some (length (shared_states \<sigma>))) (innermost (result_of f)) T s f)
          (push \<lparr>content = Pending, retrieved = False\<rparr> \<sigma>))"

text \<open>The state that \<^verbatim>\<open>then\<close> leaves under a launch policy of the standard library: a
  new shared state that holds the task, and, unless the policy is \<open>deferred\<close>, the thread
  started for it.\<close>

definition chain_state :: "launch \<Rightarrow> 'a task \<Rightarrow> 'a state \<Rightarrow> 'a state" where
  "chain_state l t \<sigma> =
     (if l = deferred then push \<lparr>content = Task l t, retrieved = True\<rparr> \<sigma>
      else spawn (Async_thread (length (shared_states \<sigma>)))
             (push \<lparr>content = Task l t, retrieved = True\<rparr> \<sigma>))"

text \<open>Example callbacks: the identity, a callback that returns nothing, the successor,
  and a callback that returns a shared future of a future, which it holds.\<close>

definition identity_callback :: "int callback" where
  "identity_callback =
     \<lparr>ident = 0, result_of = Payload, body = (\<lambda>args. case args of [x] \<Rightarrow> Inr x | _ \<Rightarrow> Inr Unit)\<rparr>"

definition void_callback :: "int callback" where
  "void_callback = \<lparr>ident = 1, result_of = Void, body = (\<lambda>args. Inr Unit)\<rparr>"

definition increment_callback :: "int callback" where
  "increment_callback =
     \<lparr>ident = 4, result_of = Payload,
      body = (\<lambda>args. case args of [Value x] \<Rightarrow> Inr (Value (x + 1)) | _ \<Rightarrow> Inr Unit)\<rparr>"

definition shared_future_of_future_callback :: "addr \<Rightarrow> int callback" where
  "shared_future_of_future_callback a =
     \<lparr>ident = 3, result_of = SharedFutureT (FutureT Payload),
      body = (\<lambda>args. Inr (SharedFuture (Some a)))\<rparr>"

text \<open>Requesting the result of a chain, in two schedules. \<open>requested n m\<close> is
  \<^verbatim>\<open>then(...).get()\<close> for the call \<open>m\<close> of \<^verbatim>\<open>then\<close>, with no thread running in
  between: a deferred task runs in the \<^verbatim>\<open>get()\<close>, and so does, joined, an asynchronous
  one. In \<open>requested_after_run n \<sigma> m\<close> the thread that the call \<open>m\<close>, made in the state
  \<open>\<sigma>\<close>, has started runs to its end before the result is requested; an exception that
  leaves the function of a thread ends the process (\<^verbatim>\<open>std::terminate\<close>), which is not
  the \<^verbatim>\<open>get()\<close> raising it.\<close>

definition requested :: "nat \<Rightarrow> ('a val, 'a) outcome \<Rightarrow> ('a val, 'a) outcome" where
  "requested n m = and_then m (\<lambda>k \<sigma>. future_get (wait n) (handle_of k) \<sigma>)"

definition requested_after_run ::
  "nat \<Rightarrow> 'a state \<Rightarrow> ('a val, 'a) outcome \<Rightarrow> ('a val, 'a) outcome" where
  "requested_after_run n \<sigma> m = and_then m (\<lambda>k \<sigma>1.
     (case drop (length (threads \<sigma>)) (threads \<sigma>1) of
        [] \<Rightarrow> future_get (wait n) (handle_of k) \<sigma>1
      | t # ts \<Rightarrow>
          (case run_thread n t \<sigma>1 of
             Return u \<sigma>2 \<Rightarrow> future_get (wait n) (handle_of k) \<sigma>2
           | Raise e \<sigma>2 \<Rightarrow> Aborted
           | Blocked \<Rightarrow> Blocked
           | Ill_formed \<Rightarrow> Ill_formed
           | Aborted \<Rightarrow> Aborted
           | Out_of_fuel \<Rightarrow> Out_of_fuel)))"

text \<open>A state with one promise that is not settled and whose future has not been
  retrieved.\<close>

definition fresh_promise :: "int state" where
  "fresh_promise =
     \<lparr>shared_states = [\<lparr>content = Pending, retrieved = False\<rparr>], calls = [], threads = []\<rparr>"

text \<open>The state after \<^verbatim>\<open>then(p, f, launch::deferred)\<close> on that promise, with the
  identity callback.\<close>

definition chained_promise :: "int state" where
  "chained_promise =
     push \<lparr>content = Task deferred (Then_task Payload (Future (Some 0)) identity_callback),
            retrieved = True\<rparr> (mark_retrieved 0 fresh_promise)"

text \<open>\<open>layers \<sigma> wrap n a v\<close>: the shared state at \<open>a\<close> is the outermost of \<open>n + 1\<close> ready
  states, each but the last holding a handle, made by \<open>wrap\<close>, to the next, and the last
  holding \<open>v\<close>: a future nested \<open>n\<close> levels deep around \<open>v\<close>.\<close>

fun layers :: "'a state \<Rightarrow> (addr option \<Rightarrow> 'a val) \<Rightarrow> nat \<Rightarrow> addr \<Rightarrow> 'a val \<Rightarrow> bool" where
  "layers \<sigma> wrap 0 a v \<longleftrightarrow>
     a < length (shared_states \<sigma>) \<and> content (shared_states \<sigma> ! a) = Ready (Inr v)"
| "layers \<sigma> wrap (Suc n) a v \<longleftrightarrow>
     a < length (shared_states \<sigma>) \<and>
     (case content (shared_states \<sigma> ! a) of
        Ready (Inr x) \<Rightarrow> (case handle_of x of Some b \<Rightarrow> x = wrap (Some b) \<and> layers \<sigma> wrap n b v | None \<Rightarrow> False)
      | _ \<Rightarrow> False)"

section \<open>Lemmas\<close>

subsection \<open>Outcomes and frames\<close>

lemma and_then_simps [simp]:
  "and_then (Return r \<sigma>) k = k r \<sigma>"
  "and_then (Raise e \<sigma>) k = Raise e \<sigma>"
  "and_then Blocked k = Blocked"
  "and_then Ill_formed k = Ill_formed"
  "and_then Aborted k = Aborted"
  "and_then Out_of_fuel k = Out_of_fuel"
  by (simp_all add: and_then_def)

lemma try_catch_simps [simp]:
  "try_catch (Return r \<sigma>) h = Return r \<sigma>"
  "try_catch (Raise e \<sigma>) h = h e \<sigma>"
  "try_catch Blocked h = Blocked"
  "try_catch Ill_formed h = Ill_formed"
  "try_catch Aborted h = Aborted"
  "try_catch Out_of_fuel h = Out_of_fuel"
  by (simp_all add: try_catch_def)

lemma post_simps [simp]:
  "post (Return r \<sigma>) Q = Q \<sigma>"
  "post (Raise e \<sigma>) Q = Q \<sigma>"
  "post Blocked Q"
  "post Ill_formed Q"
  "post Aborted Q"
  "post Out_of_fuel Q"
  by (simp_all add: post_def)

lemma frame_refl [simp]: "frame \<sigma> \<sigma>"
  by (simp add: frame_def)

lemma frame_trans: "frame \<sigma> \<sigma>' \<Longrightarrow> frame \<sigma>' \<sigma>'' \<Longrightarrow> frame \<sigma> \<sigma>''"
  unfolding frame_def by (metis (no_types, lifting) le_trans less_le_trans)

lemma post_and_then:
  assumes "post m (frame \<sigma>)"
    and "\<And>r \<sigma>'. m = Return r \<sigma>' \<Longrightarrow> post (k r \<sigma>') (frame \<sigma>')"
  shows "post (and_then m k) (frame \<sigma>)"
proof (cases m)
  case (Return r \<sigma>')
  with assms have "frame \<sigma> \<sigma>'" "post (k r \<sigma>') (frame \<sigma>')" by simp_all
  then show ?thesis using Return
    by (cases "k r \<sigma>'") (auto intro: frame_trans)
qed (use assms in simp_all)

subsection \<open>No call settles a pending state or changes a ready one\<close>

lemma post_future_get: "framed w \<Longrightarrow> post (future_get w k \<sigma>) (frame \<sigma>)"
  by (cases k) (simp_all add: future_get_def framed_def)

lemma post_shared_future_get: "framed w \<Longrightarrow> post (shared_future_get w k \<sigma>) (frame \<sigma>)"
  by (cases k) (simp_all add: shared_future_get_def framed_def)

lemma post_get_future: "post (get_future p \<sigma>) (frame \<sigma>)"
  by (cases p) (auto simp: get_future_def mark_retrieved_def frame_def nth_list_update)

lemma post_recursive_get_primary:
  "framed w \<Longrightarrow> post (recursive_get_primary w x \<sigma>) (frame \<sigma>)"
  unfolding recursive_get_primary_def
  by (cases "select_overload True (static x)")
     (auto intro!: post_and_then post_future_get post_shared_future_get post_get_future)

lemma post_recursive_get:
  "framed w \<Longrightarrow> post (recursive_get w K x \<sigma>) (frame \<sigma>)"
proof (induction K arbitrary: x \<sigma>)
  case (FutureT K)
  then show ?case
    by (cases "select_overload False (static x)")
       (auto intro!: post_and_then post_future_get post_shared_future_get)
next
  case (SharedFutureT K)
  then show ?case
    by (cases "select_overload False (static x)")
       (auto intro!: post_and_then post_future_get post_shared_future_get)
qed (simp_all add: post_recursive_get_primary)

lemma post_optional_get:
  "framed w \<Longrightarrow> post (optional_get w T r \<sigma>) (frame \<sigma>)"
  by (cases T) (simp_all add: post_recursive_get)

lemma post_invoke: "post (invoke f args \<sigma>) (frame \<sigma>)"
  by (cases "body f args") (simp_all add: invoke_def record_call_def frame_def)

lemma post_then_invoke_helper:
  "framed w \<Longrightarrow> post (then_invoke_helper w f args \<sigma>) (frame \<sigma>)"
  unfolding then_invoke_helper_def
  by (auto intro!: post_and_then post_invoke post_optional_get)

lemma post_then_helper_dispatch:
  "framed w \<Longrightarrow> post (then_helper_dispatch w T s f \<sigma>) (frame \<sigma>)"
  unfolding then_helper_dispatch_def
  by (cases s)
     (auto intro!: post_and_then post_future_get post_shared_future_get
        post_recursive_get post_then_invoke_helper)

lemma frame_set_content:
  assumes "frame \<sigma> \<sigma>'" "a < length (shared_states \<sigma>)"
    "content (shared_states \<sigma> ! a) = Task l t"
  shows "frame \<sigma> (set_content a c \<sigma>')"
  using assms unfolding frame_def set_content_def
  by (auto simp: nth_list_update)

lemma framed_wait: "framed (wait n)"
proof (induction n)
  case 0
  show ?case by (simp add: framed_def)
next
  case (Suc n)
  show ?case unfolding framed_def
  proof (intro allI)
    fix a and \<sigma> :: "'a state"
    show "post (wait (Suc n) a \<sigma>) (frame \<sigma>)"
    proof (cases "a < length (shared_states \<sigma>)")
      case False
      then show ?thesis by simp
    next
      case True
      show ?thesis
      proof (cases "content (shared_states \<sigma> ! a)")
        case Pending
        with True show ?thesis by simp
      next
        case (Ready r)
        with True show ?thesis by (cases r) simp_all
      next
        case (Task l t)
        obtain T s f where t: "t = Then_task T s f" by (cases t)
        have "post (then_helper_dispatch (wait n) T s f \<sigma>) (frame \<sigma>)"
          using Suc by (rule post_then_helper_dispatch)
        then show ?thesis using True Task t
          by (cases "then_helper_dispatch (wait n) T s f \<sigma>")
             (auto intro: frame_set_content)
      qed
    qed
  qed
qed

lemma wait_Ready:
  "a < length (shared_states \<sigma>) \<Longrightarrow> content (shared_states \<sigma> ! a) = Ready r \<Longrightarrow>
   wait (Suc n) a \<sigma> = (case r of Inl e \<Rightarrow> Raise e \<sigma> | Inr v \<Rightarrow> Return v \<sigma>)"
  by simp

lemma wait_Pending:
  "a < length (shared_states \<sigma>) \<Longrightarrow> content (shared_states \<sigma> ! a) = Pending \<Longrightarrow>
   wait (Suc n) a \<sigma> = Blocked"
  by simp

declare wait.simps(2) [simp del]

subsection \<open>What a frame keeps\<close>

lemma and_then_Return:
  "and_then m k = Return v \<sigma>' \<Longrightarrow> \<exists>u \<sigma>1. m = Return u \<sigma>1 \<and> k u \<sigma>1 = Return v \<sigma>'"
  by (cases m) simp_all

lemma frame_Ready:
  "frame \<sigma> \<sigma>1 \<Longrightarrow> a < length (shared_states \<sigma>) \<Longrightarrow> content (shared_states \<sigma> ! a) = Ready r \<Longrightarrow>
   a < length (shared_states \<sigma>1) \<and> content (shared_states \<sigma>1 ! a) = Ready r"
  unfolding frame_def by auto

lemma frame_Pending:
  "frame \<sigma> \<sigma>1 \<Longrightarrow> a < length (shared_states \<sigma>) \<Longrightarrow> content (shared_states \<sigma> ! a) = Pending \<Longrightarrow>
   a < length (shared_states \<sigma>1) \<and> content (shared_states \<sigma>1 ! a) = Pending"
  unfolding frame_def by auto

subsection \<open>Chains under a launch policy of the standard library\<close>

lemma static_simp [simp]: "static (c, v) = (c, class_of v)"
  by (simp add: static_def)

lemma push_simps [simp]:
  "length (shared_states (push s \<sigma>)) = Suc (length (shared_states \<sigma>))"
  "shared_states (push s \<sigma>) ! length (shared_states \<sigma>) = s"
  "a < length (shared_states \<sigma>) \<Longrightarrow> shared_states (push s \<sigma>) ! a = shared_states \<sigma> ! a"
  "calls (push s \<sigma>) = calls \<sigma>"
  "threads (push s \<sigma>) = threads \<sigma>"
  by (simp_all add: push_def nth_append)

lemma frame_push [simp]: "frame \<sigma> (push s \<sigma>)"
  by (simp add: frame_def)

lemma record_call_simps [simp]:
  "shared_states (record_call f args \<sigma>) = shared_states \<sigma>"
  "calls (record_call f args \<sigma>) = calls \<sigma> @ [(ident f, args)]"
  "threads (record_call f args \<sigma>) = threads \<sigma>"
  by (simp_all add: record_call_def)

lemma frame_record_call [simp]: "frame \<sigma> (record_call f args \<sigma>)"
  by (simp add: frame_def)

lemma set_content_simps [simp]:
  "length (shared_states (set_content a c \<sigma>)) = length (shared_states \<sigma>)"
  "a < length (shared_states \<sigma>) \<Longrightarrow> content (shared_states (set_content a c \<sigma>) ! a) = c"
  "a < length (shared_states \<sigma>) \<Longrightarrow>
     retrieved (shared_states (set_content a c \<sigma>) ! a) = retrieved (shared_states \<sigma> ! a)"
  "b \<noteq> a \<Longrightarrow> shared_states (set_content a c \<sigma>) ! b = shared_states \<sigma> ! b"
  "calls (set_content a c \<sigma>) = calls \<sigma>"
  "threads (set_content a c \<sigma>) = threads \<sigma>"
  by (simp_all add: set_content_def)

lemma state_of_simps [simp]:
  "calls (state_of cs) = []"
  "threads (state_of cs) = []"
  "length (shared_states (state_of cs)) = length cs"
  by (simp_all add: state_of_def)

lemma spawn_simps [simp]:
  "shared_states (spawn t \<sigma>) = shared_states \<sigma>"
  "calls (spawn t \<sigma>) = calls \<sigma>"
  "threads (spawn t \<sigma>) = threads \<sigma> @ [t]"
  by (simp_all add: spawn_def)

lemma frame_spawn [simp]: "frame \<sigma> (spawn t \<sigma>)"
  by (simp add: frame_def)

lemma chain_state_simps [simp]:
  "length (shared_states (chain_state l t \<sigma>)) = Suc (length (shared_states \<sigma>))"
  "shared_states (chain_state l t \<sigma>) ! length (shared_states \<sigma>) =
     \<lparr>content = Task l t, retrieved = True\<rparr>"
  "a < length (shared_states \<sigma>) \<Longrightarrow> shared_states (chain_state l t \<sigma>) ! a = shared_states \<sigma> ! a"
  "calls (chain_state l t \<sigma>) = calls \<sigma>"
  "threads (chain_state l t \<sigma>) =
     threads \<sigma> @ (if l = deferred then [] else [Async_thread (length (shared_states \<sigma>))])"
  by (simp_all add: chain_state_def)

lemma chain_state_deferred:
  "chain_state deferred t \<sigma> = push \<lparr>content = Task deferred t, retrieved = True\<rparr> \<sigma>"
  by (simp add: chain_state_def)

lemma frame_chain_state [simp]: "frame \<sigma> (chain_state l t \<sigma>)"
  by (simp add: frame_def)

lemma std_async_eq:
  "std_async policy t \<sigma> =
     Return (Future (Some (length (shared_states \<sigma>)))) (chain_state policy t \<sigma>)"
  by (simp add: std_async_def alloc_def chain_state_def)

lemma then_future_eq:
  "then_future T s f policy \<sigma> =
     Return (Future (Some (length (shared_states \<sigma>))))
       (chain_state policy (Then_task T (Future s) f) \<sigma>)"
  by (simp add: then_future_def std_async_eq)

lemma then_shared_future_eq:
  "then_shared_future T s f policy \<sigma> =
     Return (Future (Some (length (shared_states \<sigma>))))
       (chain_state policy (Then_task T (SharedFuture s) f) \<sigma>)"
  by (simp add: then_shared_future_def std_async_eq)

lemma wait_Task:
  "a < length (shared_states \<sigma>) \<Longrightarrow> content (shared_states \<sigma> ! a) = Task l (Then_task T s f) \<Longrightarrow>
   wait (Suc n) a \<sigma> =
     (case then_helper_dispatch (wait n) T s f \<sigma> of
        Return v \<sigma>' \<Rightarrow> Return v (set_content a (Ready (Inr v)) \<sigma>')
      | Raise e \<sigma>' \<Rightarrow> Raise e (set_content a (Ready (Inl e)) \<sigma>')
      | other \<Rightarrow> other)"
  by (simp add: wait.simps)

lemma invoke_eq:
  "invoke f args \<sigma> =
     (case body f args of
        Inl e \<Rightarrow> Raise e (record_call f args \<sigma>)
      | Inr v \<Rightarrow> Return v (record_call f args \<sigma>))"
  by (rule invoke_def)

lemma instantiates_plain:
  "\<not> is_future_type T \<Longrightarrow> instantiates T (rvalue, Some a_future)"
  "\<not> is_future_type T \<Longrightarrow> instantiates T (c, Some a_shared_future)"
  by (cases T; simp)+

lemma then_helper_instantiates_source:
  assumes "then_helper_instantiates T (class_of s) f"
  shows "T \<noteq> Void \<Longrightarrow> instantiates T (static (source_arg s))"
    and "T \<noteq> Void \<Longrightarrow> innermost T \<noteq> Void" and "then_invoke_helper_instantiates f"
  using assms
  by (cases s; auto simp: then_helper_instantiates_def source_arg_def
        split: handle_class.splits)+

lemma then_helper_dispatch_eq:
  "then_helper_instantiates T (class_of s) f \<Longrightarrow>
   then_helper_dispatch w T s f \<sigma> =
     and_then (recursive_get w T (source_arg s) \<sigma>)
       (\<lambda>x \<sigma>'. then_invoke_helper w f (if T = Void then [] else [x]) \<sigma>')"
  by (cases s; cases "T = Void")
     (simp_all add: then_helper_dispatch_def source_arg_def recursive_get_primary_def
        then_helper_instantiates_def)

lemma then_helper_dispatch_ill_formed:
  "\<not> then_helper_instantiates T (class_of s) f \<Longrightarrow> then_helper_dispatch w T s f \<sigma> = Ill_formed"
  by (simp add: then_helper_dispatch_def)

lemma recursive_get_source_error:
  assumes "a < length (shared_states \<sigma>)" "content (shared_states \<sigma> ! a) = Ready (Inl e)"
    and "s = Future (Some a) \<or> s = SharedFuture (Some a)"
    and "T = Void \<or> instantiates T (static (source_arg s))"
  shows "recursive_get (wait (Suc n)) T (source_arg s) \<sigma> = Raise e \<sigma>"
  using assms
  by (cases T)
     (auto simp: source_arg_def recursive_get_primary_def future_get_def shared_future_get_def
        wait_Ready)

lemma then_helper_dispatch_source_error:
  assumes "a < length (shared_states \<sigma>)" "content (shared_states \<sigma> ! a) = Ready (Inl e)"
    and "s = Future (Some a) \<or> s = SharedFuture (Some a)"
    and "then_helper_instantiates T (class_of s) f"
  shows "then_helper_dispatch (wait (Suc n)) T s f \<sigma> = Raise e \<sigma>"
proof -
  have "T = Void \<or> instantiates T (static (source_arg s))"
    using then_helper_instantiates_source(1) [OF assms(4)] by blast
  from recursive_get_source_error [OF assms(1,2,3) this] show ?thesis
    by (simp add: then_helper_dispatch_eq [OF assms(4)])
qed

lemma then_invoke_helper_void:
  "result_of f = Void \<Longrightarrow> body f args = Inr r \<Longrightarrow>
   then_invoke_helper w f args \<sigma> = Return Unit (record_call f args \<sigma>)"
  by (simp add: then_invoke_helper_def then_invoke_helper_instantiates_def invoke_eq)

lemma then_invoke_helper_plain:
  "result_of f \<noteq> Void \<Longrightarrow> \<not> is_future_type (result_of f) \<Longrightarrow> body f args = Inr r \<Longrightarrow>
   then_invoke_helper w f args \<sigma> = Return r (record_call f args \<sigma>)"
  by (cases "result_of f")
     (simp_all add: then_invoke_helper_def then_invoke_helper_instantiates_def invoke_eq)

lemma then_invoke_helper_instantiates_plain:
  "\<not> is_future_type (result_of f) \<Longrightarrow> then_invoke_helper_instantiates f"
  by (cases "result_of f") (simp_all add: then_invoke_helper_instantiates_def)

lemma frame_calls: "frame \<sigma>0 \<sigma> \<Longrightarrow> frame \<sigma>0 (record_call f args \<sigma>)"
  by (simp add: frame_def)

subsection \<open>Promises and detached chains\<close>

lemma mark_retrieved_simps [simp]:
  "length (shared_states (mark_retrieved a \<sigma>)) = length (shared_states \<sigma>)"
  "b < length (shared_states \<sigma>) \<Longrightarrow>
     content (shared_states (mark_retrieved a \<sigma>) ! b) = content (shared_states \<sigma> ! b)"
  "a < length (shared_states \<sigma>) \<Longrightarrow> retrieved (shared_states (mark_retrieved a \<sigma>) ! a)"
  "b \<noteq> a \<Longrightarrow> shared_states (mark_retrieved a \<sigma>) ! b = shared_states \<sigma> ! b"
  "calls (mark_retrieved a \<sigma>) = calls \<sigma>"
  "threads (mark_retrieved a \<sigma>) = threads \<sigma>"
  by (cases "b = a"; simp add: mark_retrieved_def)+

lemma spawn_detached_simps [simp]:
  "shared_states (spawn_detached t \<sigma>) = shared_states \<sigma>"
  "calls (spawn_detached t \<sigma>) = calls \<sigma>"
  "threads (spawn_detached t \<sigma>) = threads \<sigma> @ [t]"
  by (simp_all add: spawn_detached_def)

lemma frame_mark_retrieved [simp]: "frame \<sigma> (mark_retrieved a \<sigma>)"
  by (simp add: frame_def)

lemma frame_spawn_detached [simp]: "frame \<sigma> (spawn_detached t \<sigma>)"
  by (simp add: frame_def)

lemma get_future_fresh:
  "a < length (shared_states \<sigma>) \<Longrightarrow> \<not> retrieved (shared_states \<sigma> ! a) \<Longrightarrow>
   get_future (Some a) \<sigma> = Return (Future (Some a)) (mark_retrieved a \<sigma>)"
  by (simp add: get_future_def)

lemma get_future_again:
  "a < length (shared_states \<sigma>) \<Longrightarrow> retrieved (shared_states \<sigma> ! a) \<Longrightarrow>
   get_future (Some a) \<sigma> = Raise (future_error future_already_retrieved) \<sigma>"
  by (simp add: get_future_def)

lemma settle_Pending:
  "p < length (shared_states \<sigma>) \<Longrightarrow> content (shared_states \<sigma> ! p) = Pending \<Longrightarrow>
   settle (Some p) r \<sigma> = Return () (set_content p (Ready r) \<sigma>)"
  by (simp add: settle_def)

lemma detached_state_simps [simp]:
  "length (shared_states (detached_state T s f \<sigma>)) = Suc (length (shared_states \<sigma>))"
  "content (shared_states (detached_state T s f \<sigma>) ! length (shared_states \<sigma>)) = Pending"
  "a < length (shared_states \<sigma>) \<Longrightarrow>
     shared_states (detached_state T s f \<sigma>) ! a = shared_states \<sigma> ! a"
  "calls (detached_state T s f \<sigma>) = calls \<sigma>"
  "threads (detached_state T s f \<sigma>) =
     threads \<sigma> @ [Thread (Some (length (shared_states \<sigma>))) (innermost (result_of f)) T s f]"
  by (simp_all add: detached_state_def)

lemma frame_detached_state [simp]: "frame \<sigma> (detached_state T s f \<sigma>)"
  by (simp add: frame_def)

lemma then_detached_future_eq:
  "then_detached_future T s f detached \<sigma> =
     Return (Future (Some (length (shared_states \<sigma>)))) (detached_state T (Future s) f \<sigma>)"
  by (simp add: then_detached_future_def make_shared_promise_def alloc_def get_future_def
      detached_state_def)

lemma then_detached_shared_future_eq:
  "then_detached_shared_future T s f detached \<sigma> =
     Return (Future (Some (length (shared_states \<sigma>)))) (detached_state T (SharedFuture s) f \<sigma>)"
  by (simp add: then_detached_shared_future_def make_shared_promise_def alloc_def get_future_def
      detached_state_def)

lemma detached_then_helper_dispatch_eq:
  assumes "framed w" "p < length (shared_states \<sigma>)" "content (shared_states \<sigma> ! p) = Pending"
  shows "detached_then_helper_dispatch w P (Some p) K s f \<sigma> =
     (case then_helper_dispatch w K s f \<sigma> of
        Return v \<sigma>' \<Rightarrow> Return () (set_content p (Ready (Inr (if P = Void then Unit else v))) \<sigma>')
      | Raise e \<sigma>' \<Rightarrow> Return () (set_content p (Ready (Inl e)) \<sigma>')
      | Blocked \<Rightarrow> Blocked
      | Ill_formed \<Rightarrow> Ill_formed
      | Aborted \<Rightarrow> Aborted
      | Out_of_fuel \<Rightarrow> Out_of_fuel)"
proof -
  have post: "post (then_helper_dispatch w K s f \<sigma>) (frame \<sigma>)"
    using assms(1) by (rule post_then_helper_dispatch)
  show ?thesis
  proof (cases "then_helper_dispatch w K s f \<sigma>")
    case (Return v \<sigma>')
    with post have "frame \<sigma> \<sigma>'" by simp
    from frame_Pending [OF this assms(2,3)] Return show ?thesis
      by (simp add: detached_then_helper_dispatch_def set_value_def settle_Pending)
  next
    case (Raise e \<sigma>')
    with post have "frame \<sigma> \<sigma>'" by simp
    from frame_Pending [OF this assms(2,3)] Raise show ?thesis
      by (simp add: detached_then_helper_dispatch_def set_exception_def settle_Pending)
  qed (simp_all add: detached_then_helper_dispatch_def)
qed

subsection \<open>Requesting the result of a chain\<close>

lemma requested_std_async:
  "requested (Suc n) (std_async l (Then_task T s f) \<sigma>) =
     (case then_helper_dispatch (wait n) T s f (chain_state l (Then_task T s f) \<sigma>) of
        Return v \<sigma>' \<Rightarrow> Return v (set_content (length (shared_states \<sigma>)) (Ready (Inr v)) \<sigma>')
      | Raise e \<sigma>' \<Rightarrow> Raise e (set_content (length (shared_states \<sigma>)) (Ready (Inl e)) \<sigma>')
      | other \<Rightarrow> other)"
  by (simp add: requested_def std_async_eq future_get_def wait_Task [where l = l])

text \<open>Under a launch policy of the standard library the two schedules end the same way:
  whether the thread of an asynchronous task runs before the result is requested or is
  joined by the request makes no difference to the result or to the state.\<close>

lemma requested_after_run_std_async:
  "requested_after_run (Suc n) \<sigma> (std_async l t \<sigma>) = requested (Suc n) (std_async l t \<sigma>)"
proof (cases "l = deferred")
  case True
  then show ?thesis
    by (simp add: requested_after_run_def requested_def std_async_eq)
next
  case False
  obtain T s f where t: "t = Then_task T s f" by (cases t)
  let ?c = "length (shared_states \<sigma>)"
  let ?\<sigma>1 = "chain_state l t \<sigma>"
  have post: "post (then_helper_dispatch (wait n) T s f ?\<sigma>1) (frame ?\<sigma>1)"
    using framed_wait by (rule post_then_helper_dispatch)
  have w: "wait (Suc n) ?c ?\<sigma>1 =
     (case then_helper_dispatch (wait n) T s f ?\<sigma>1 of
        Return v \<sigma>' \<Rightarrow> Return v (set_content ?c (Ready (Inr v)) \<sigma>')
      | Raise e \<sigma>' \<Rightarrow> Raise e (set_content ?c (Ready (Inl e)) \<sigma>')
      | other \<Rightarrow> other)"
    by (rule wait_Task [where l = l]) (simp_all add: t)
  have d: "drop (length (threads \<sigma>)) (threads ?\<sigma>1) = [Async_thread ?c]"
    using False by simp
  show ?thesis
  proof (cases "then_helper_dispatch (wait n) T s f ?\<sigma>1")
    case (Return v \<sigma>')
    with post have "frame ?\<sigma>1 \<sigma>'" by simp
    then have "?c < length (shared_states \<sigma>')" by (simp add: frame_def)
    with Return w d show ?thesis
      by (simp add: requested_after_run_def requested_def std_async_eq future_get_def wait_Ready)
  next
    case (Raise e \<sigma>')
    with post have "frame ?\<sigma>1 \<sigma>'" by simp
    then have "?c < length (shared_states \<sigma>')" by (simp add: frame_def)
    with Raise w d show ?thesis
      by (simp add: requested_after_run_def requested_def std_async_eq future_get_def wait_Ready)
  qed (use w d in \<open>simp_all add: requested_after_run_def requested_def std_async_eq future_get_def\<close>)
qed

text \<open>A detached thread on a promise that is not settled, followed by a request for the
  result: the thread settles the promise with what the chain yields, and the request hands
  that out or raises it.\<close>

lemma run_thread_then_get:
  assumes "p < length (shared_states \<sigma>1)" "content (shared_states \<sigma>1 ! p) = Pending"
  shows "(case run_thread (Suc n) (Thread (Some p) P T s f) \<sigma>1 of
        Return u \<sigma>2 \<Rightarrow> future_get (wait (Suc n)) (Some p) \<sigma>2
      | Raise e \<sigma>2 \<Rightarrow> Aborted
      | Blocked \<Rightarrow> Blocked
      | Ill_formed \<Rightarrow> Ill_formed
      | Aborted \<Rightarrow> Aborted
      | Out_of_fuel \<Rightarrow> Out_of_fuel) =
     (case then_helper_dispatch (wait (Suc n)) T s f \<sigma>1 of
        Return v \<sigma>' \<Rightarrow>
          Return (if P = Void then Unit else v)
            (set_content p (Ready (Inr (if P = Void then Unit else v))) \<sigma>')
      | Raise e \<sigma>' \<Rightarrow> Raise e (set_content p (Ready (Inl e)) \<sigma>')
      | other \<Rightarrow> other)"
proof -
  have post: "post (then_helper_dispatch (wait (Suc n)) T s f \<sigma>1) (frame \<sigma>1)"
    using framed_wait by (rule post_then_helper_dispatch)
  note d = detached_then_helper_dispatch_eq [OF framed_wait assms, of "Suc n" P T s f]
  show ?thesis
  proof (cases "then_helper_dispatch (wait (Suc n)) T s f \<sigma>1")
    case (Return v \<sigma>')
    with post have "frame \<sigma>1 \<sigma>'" by simp
    then have "p < length (shared_states \<sigma>')" using assms(1) by (simp add: frame_def)
    with Return d show ?thesis
      by (simp add: future_get_def wait_Ready)
  next
    case (Raise e \<sigma>')
    with post have "frame \<sigma>1 \<sigma>'" by simp
    then have "p < length (shared_states \<sigma>')" using assms(1) by (simp add: frame_def)
    with Raise d show ?thesis
      by (simp add: future_get_def wait_Ready)
  qed (simp_all add: d)
qed

lemma requested_after_run_Thread:
  assumes "drop (length (threads \<sigma>)) (threads \<sigma>1) = [t]"
  shows "requested_after_run n \<sigma> (Return (Future k) \<sigma>1) =
     (case run_thread n t \<sigma>1 of
        Return u \<sigma>2 \<Rightarrow> future_get (wait n) k \<sigma>2
      | Raise e \<sigma>2 \<Rightarrow> Aborted
      | Blocked \<Rightarrow> Blocked
      | Ill_formed \<Rightarrow> Ill_formed
      | Aborted \<Rightarrow> Aborted
      | Out_of_fuel \<Rightarrow> Out_of_fuel)"
  using assms by (cases "run_thread n t \<sigma>1") (simp_all add: requested_after_run_def)

lemma requested_after_run_detached:
  "requested_after_run (Suc n) \<sigma>
      (Return (Future (Some (length (shared_states \<sigma>)))) (detached_state T s f \<sigma>)) =
     (case then_helper_dispatch (wait (Suc n)) T s f (detached_state T s f \<sigma>) of
        Return v \<sigma>' \<Rightarrow>
          Return (if innermost (result_of f) = Void then Unit else v)
            (set_content (length (shared_states \<sigma>))
               (Ready (Inr (if innermost (result_of f) = Void then Unit else v))) \<sigma>')
      | Raise e \<sigma>' \<Rightarrow> Raise e (set_content (length (shared_states \<sigma>)) (Ready (Inl e)) \<sigma>')
      | other \<Rightarrow> other)"
proof -
  let ?p = "length (shared_states \<sigma>)"
  let ?\<sigma>1 = "detached_state T s f \<sigma>"
  have "requested_after_run (Suc n) \<sigma> (Return (Future (Some ?p)) ?\<sigma>1) =
     (case run_thread (Suc n) (Thread (Some ?p) (innermost (result_of f)) T s f) ?\<sigma>1 of
        Return u \<sigma>2 \<Rightarrow> future_get (wait (Suc n)) (Some ?p) \<sigma>2
      | Raise e \<sigma>2 \<Rightarrow> Aborted
      | Blocked \<Rightarrow> Blocked
      | Ill_formed \<Rightarrow> Ill_formed
      | Aborted \<Rightarrow> Aborted
      | Out_of_fuel \<Rightarrow> Out_of_fuel)"
    by (rule requested_after_run_Thread) simp
  also have "\<dots> =
     (case then_helper_dispatch (wait (Suc n)) T s f ?\<sigma>1 of
        Return v \<sigma>' \<Rightarrow>
          Return (if innermost (result_of f) = Void then Unit else v)
            (set_content ?p (Ready (Inr (if innermost (result_of f) = Void then Unit else v))) \<sigma>')
      | Raise e \<sigma>' \<Rightarrow> Raise e (set_content ?p (Ready (Inl e)) \<sigma>')
      | other \<Rightarrow> other)"
    by (rule run_thread_then_get) simp_all
  finally show ?thesis .
qed

lemma source_error_std:
  assumes "a < length (shared_states \<sigma>)" "content (shared_states \<sigma> ! a) = Ready (Inl e)"
    and "s = Future (Some a) \<or> s = SharedFuture (Some a)"
    and "then_helper_instantiates T (class_of s) f"
  shows "\<exists>\<sigma>'. requested (Suc (Suc n)) (std_async l (Then_task T s f) \<sigma>) = Raise e \<sigma>' \<and>
     calls \<sigma>' = calls \<sigma>"
proof -
  let ?\<sigma>1 = "chain_state l (Then_task T s f) \<sigma>"
  have "then_helper_dispatch (wait (Suc n)) T s f ?\<sigma>1 = Raise e ?\<sigma>1"
    using assms by (intro then_helper_dispatch_source_error [where a = a]) simp_all
  then show ?thesis by (simp add: requested_std_async)
qed

lemma source_error_detached:
  assumes "a < length (shared_states \<sigma>)" "content (shared_states \<sigma> ! a) = Ready (Inl e)"
    and "s = Future (Some a) \<or> s = SharedFuture (Some a)"
    and "then_helper_instantiates T (class_of s) f"
  shows "\<exists>\<sigma>'. requested_after_run (Suc (Suc n)) \<sigma>
      (Return (Future (Some (length (shared_states \<sigma>)))) (detached_state T s f \<sigma>)) = Raise e \<sigma>' \<and>
     calls \<sigma>' = calls \<sigma>"
proof -
  let ?\<sigma>1 = "detached_state T s f \<sigma>"
  have "then_helper_dispatch (wait (Suc (Suc n))) T s f ?\<sigma>1 = Raise e ?\<sigma>1"
    using assms by (intro then_helper_dispatch_source_error [where a = a]) simp_all
  then show ?thesis by (simp add: requested_after_run_detached)
qed

lemma invoked_std:
  assumes "then_helper_dispatch (wait (Suc n)) T s f (chain_state l (Then_task T s f) \<sigma>) =
      then_invoke_helper (wait (Suc n)) f args (chain_state l (Then_task T s f) \<sigma>)"
    and "result_of f = Void" "body f args = Inr r"
  shows "\<exists>\<sigma>'. requested (Suc (Suc n)) (std_async l (Then_task T s f) \<sigma>) = Return Unit \<sigma>' \<and>
     calls \<sigma>' = calls \<sigma> @ [(ident f, args)]"
  using assms(1) then_invoke_helper_void [OF assms(2,3)]
  by (simp add: requested_std_async)

lemma invoked_detached:
  assumes "then_helper_dispatch (wait (Suc (Suc n))) T s f (detached_state T s f \<sigma>) =
      then_invoke_helper (wait (Suc (Suc n))) f args (detached_state T s f \<sigma>)"
    and "result_of f = Void" "body f args = Inr r"
  shows "\<exists>\<sigma>'. requested_after_run (Suc (Suc n)) \<sigma>
      (Return (Future (Some (length (shared_states \<sigma>)))) (detached_state T s f \<sigma>)) = Return Unit \<sigma>' \<and>
     calls \<sigma>' = calls \<sigma> @ [(ident f, args)]"
  using assms(1,2) then_invoke_helper_void [OF assms(2,3)]
  by (simp add: requested_after_run_detached)

lemma frame_set_content_beyond:
  "frame \<sigma> \<sigma>' \<Longrightarrow> length (shared_states \<sigma>) \<le> a \<Longrightarrow> frame \<sigma> (set_content a c \<sigma>')"
  unfolding frame_def by (auto simp: set_content_simps)

subsection \<open>Nested futures\<close>

text \<open>Nestings that \<^verbatim>\<open>recursive_get\<close> resolves, at every depth: futures of futures
  and shared futures of shared futures. A shared future of a future it does not: the call
  is ill-formed whatever the shared future holds.\<close>

lemma layers_frame:
  "layers \<sigma> wrap n a v \<Longrightarrow> frame \<sigma> \<sigma>' \<Longrightarrow> layers \<sigma>' wrap n a v"
proof (induction n arbitrary: a)
  case 0
  then show ?case using frame_Ready [of \<sigma> \<sigma>' a "Inr v"] by simp
next
  case (Suc n)
  from Suc.prems(1) obtain x b where
    a: "a < length (shared_states \<sigma>)" "content (shared_states \<sigma> ! a) = Ready (Inr x)"
       "handle_of x = Some b" "x = wrap (Some b)"
    and l: "layers \<sigma> wrap n b v"
    by (auto split: content.splits sum.splits option.splits)
  from frame_Ready [OF Suc.prems(2) a(1,2)] Suc.IH [OF l Suc.prems(2)] a(3,4)
  show ?case by simp
qed

lemma innermost_futures: "\<not> is_future_type T \<Longrightarrow> innermost ((FutureT ^^ n) T) = T"
  by (induction n) (cases T; simp)+

lemma innermost_shared_futures: "\<not> is_future_type T \<Longrightarrow> innermost ((SharedFutureT ^^ n) T) = T"
  by (induction n) (cases T; simp)+

lemma instantiates_futures:
  "\<not> is_future_type T \<Longrightarrow> instantiates ((FutureT ^^ n) T) (rvalue, Some a_future)"
  by (induction n) (simp_all add: instantiates_plain)

lemma instantiates_shared_futures:
  "\<not> is_future_type T \<Longrightarrow> instantiates ((SharedFutureT ^^ n) T) (c, Some a_shared_future)"
  by (induction n arbitrary: c) (simp_all add: instantiates_plain)

lemma recursive_get_nested_futures:
  "layers \<sigma> Future n a v \<Longrightarrow> \<not> is_future_type T \<Longrightarrow>
   recursive_get (wait (Suc m)) ((FutureT ^^ n) T) (rvalue, Future (Some a)) \<sigma> = Return v \<sigma>"
proof (induction n arbitrary: a)
  case 0
  then show ?case
    by (cases T) (simp_all add: recursive_get_primary_def future_get_def wait_Ready)
next
  case (Suc n)
  from Suc.prems(1) obtain b where
    a: "a < length (shared_states \<sigma>)" "content (shared_states \<sigma> ! a) = Ready (Inr (Future (Some b)))"
    and l: "layers \<sigma> Future n b v"
    by (auto split: content.splits sum.splits option.splits)
  from Suc.IH [OF l Suc.prems(2)] a instantiates_futures [OF Suc.prems(2), of n] show ?case
    by (simp add: future_get_def wait_Ready)
qed

lemma recursive_get_nested_shared_futures:
  "layers \<sigma> SharedFuture n a v \<Longrightarrow> \<not> is_future_type T \<Longrightarrow>
   recursive_get (wait (Suc m)) ((SharedFutureT ^^ n) T) (c, SharedFuture (Some a)) \<sigma> = Return v \<sigma>"
proof (induction n arbitrary: a c)
  case 0
  then show ?case
    by (cases T) (simp_all add: recursive_get_primary_def shared_future_get_def wait_Ready)
next
  case (Suc n)
  from Suc.prems(1) obtain b where
    a: "a < length (shared_states \<sigma>)"
       "content (shared_states \<sigma> ! a) = Ready (Inr (SharedFuture (Some b)))"
    and l: "layers \<sigma> SharedFuture n b v"
    by (auto split: content.splits sum.splits option.splits)
  from Suc.IH [OF l Suc.prems(2), of const_lvalue] a
    instantiates_shared_futures [OF Suc.prems(2), of n const_lvalue]
  show ?case
    by (simp add: shared_future_get_def wait_Ready)
qed

lemma recursive_get_shared_future_of_future_ill_formed:
  "recursive_get w (FutureT P) (c, SharedFuture k) \<sigma> = Ill_formed"
  by (cases P) simp_all

lemma then_helper_dispatch_futures:
  assumes "layers \<sigma> Future n a x" "\<not> is_future_type T"
    and "then_helper_instantiates ((FutureT ^^ n) T) (Some a_future) f"
  shows "then_helper_dispatch (wait (Suc m)) ((FutureT ^^ n) T) (Future (Some a)) f \<sigma> =
     then_invoke_helper (wait (Suc m)) f (if T = Void then [] else [x]) \<sigma>"
proof -
  have i: "then_helper_instantiates ((FutureT ^^ n) T) (class_of (Future (Some a))) f"
    using assms(3) by simp
  have r: "recursive_get (wait (Suc m)) ((FutureT ^^ n) T) (source_arg (Future (Some a))) \<sigma> = Return x \<sigma>"
    using recursive_get_nested_futures [OF assms(1,2)] by (simp add: source_arg_def)
  have "((FutureT ^^ n) T = Void) = (T = Void)"
  proof (cases n)
    case 0
    then show ?thesis by simp
  next
    case (Suc k)
    then have "(FutureT ^^ n) T \<noteq> Void" by simp
    from then_helper_instantiates_source(2) [OF i this] have "T \<noteq> Void"
      by (simp add: innermost_futures [OF assms(2)])
    with \<open>(FutureT ^^ n) T \<noteq> Void\<close> show ?thesis by simp
  qed
  with r show ?thesis
    by (simp add: then_helper_dispatch_eq [OF i])
qed

lemma then_helper_dispatch_shared_futures:
  assumes "layers \<sigma> SharedFuture n a x" "\<not> is_future_type T"
    and "then_helper_instantiates ((SharedFutureT ^^ n) T) (Some a_shared_future) f"
  shows "then_helper_dispatch (wait (Suc m)) ((SharedFutureT ^^ n) T) (SharedFuture (Some a)) f \<sigma> =
     then_invoke_helper (wait (Suc m)) f (if T = Void then [] else [x]) \<sigma>"
proof -
  have i: "then_helper_instantiates ((SharedFutureT ^^ n) T) (class_of (SharedFuture (Some a))) f"
    using assms(3) by simp
  have r: "recursive_get (wait (Suc m)) ((SharedFutureT ^^ n) T) (source_arg (SharedFuture (Some a))) \<sigma> =
      Return x \<sigma>"
    using recursive_get_nested_shared_futures [OF assms(1,2)] by (simp add: source_arg_def)
  have "((SharedFutureT ^^ n) T = Void) = (T = Void)"
  proof (cases n)
    case 0
    then show ?thesis by simp
  next
    case (Suc k)
    then have "(SharedFutureT ^^ n) T \<noteq> Void" by simp
    from then_helper_instantiates_source(2) [OF i this] have "T \<noteq> Void"
      by (simp add: innermost_shared_futures [OF assms(2)])
    with \<open>(SharedFutureT ^^ n) T \<noteq> Void\<close> show ?thesis by simp
  qed
  with r show ?thesis
    by (simp add: then_helper_dispatch_eq [OF i])
qed

subsection \<open>Two chains on a shared future\<close>

lemma then_invoke_helper_value:
  "result_of f = Void \<or> \<not> is_future_type (result_of f) \<Longrightarrow> body f args = Inr y \<Longrightarrow>
   then_invoke_helper w f args \<sigma> =
     Return (if result_of f = Void then Unit else y) (record_call f args \<sigma>)"
  using then_invoke_helper_void [of f args y w \<sigma>] then_invoke_helper_plain [of f args y w \<sigma>]
  by (cases "result_of f = Void") simp_all

lemma future_get_chain_shared:
  assumes "layers \<sigma> SharedFuture m a x" "\<not> is_future_type P" "frame \<sigma> \<sigma>'"
    and "then_helper_instantiates ((SharedFutureT ^^ m) P) (Some a_shared_future) f"
    and "r < length (shared_states \<sigma>')"
    and "content (shared_states \<sigma>' ! r) =
      Task l (Then_task ((SharedFutureT ^^ m) P) (SharedFuture (Some a)) f)"
  shows "future_get (wait (Suc (Suc n))) (Some r) \<sigma>' =
     (case then_invoke_helper (wait (Suc n)) f (if P = Void then [] else [x]) \<sigma>' of
        Return v \<sigma>'' \<Rightarrow> Return v (set_content r (Ready (Inr v)) \<sigma>'')
      | Raise e \<sigma>'' \<Rightarrow> Raise e (set_content r (Ready (Inl e)) \<sigma>'')
      | other \<Rightarrow> other)"
  using then_helper_dispatch_shared_futures [OF layers_frame [OF assms(1,3)] assms(2,4), of n]
    assms(5,6)
  by (simp add: future_get_def wait_Task [where l = l])

text \<open>A shared future nested in shared futures, every layer ready, the innermost value
  \<open>x\<close>, as the source of two chains that compile, with callbacks that return (a plain
  value or nothing). Both calls of \<^verbatim>\<open>then\<close> return. Whichever result is requested
  first, each chain yields what its callback returns on \<open>x\<close>, and afterwards the caller's
  shared future still resolves to \<open>x\<close>. By \<open>requested_after_run_std_async\<close> it makes no
  difference to a chain's result whether its thread ran before the request.\<close>

lemma then_shared_future_two_chains:
  assumes src: "layers \<sigma> SharedFuture m a x" "\<not> is_future_type P"
    and f: "then_helper_instantiates ((SharedFutureT ^^ m) P) (Some a_shared_future) f"
      "result_of f = Void \<or> \<not> is_future_type (result_of f)"
      "body f (if P = Void then [] else [x]) = Inr y"
    and g: "then_helper_instantiates ((SharedFutureT ^^ m) P) (Some a_shared_future) g"
      "result_of g = Void \<or> \<not> is_future_type (result_of g)"
      "body g (if P = Void then [] else [x]) = Inr z"
  shows "\<exists>k1 \<sigma>1 k2 \<sigma>2.
     then_shared_future ((SharedFutureT ^^ m) P) (Some a) f l \<sigma> = Return k1 \<sigma>1 \<and>
     then_shared_future ((SharedFutureT ^^ m) P) (Some a) g l' \<sigma>1 = Return k2 \<sigma>2 \<and>
     (\<exists>\<sigma>3 \<sigma>4.
        future_get (wait (Suc (Suc n))) (handle_of k1) \<sigma>2 =
          Return (if result_of f = Void then Unit else y) \<sigma>3 \<and>
        future_get (wait (Suc (Suc n))) (handle_of k2) \<sigma>3 =
          Return (if result_of g = Void then Unit else z) \<sigma>4 \<and>
        recursive_get (wait (Suc n)) ((SharedFutureT ^^ m) P) (lvalue, SharedFuture (Some a)) \<sigma>4 =
          Return x \<sigma>4) \<and>
     (\<exists>\<sigma>3 \<sigma>4.
        future_get (wait (Suc (Suc n))) (handle_of k2) \<sigma>2 =
          Return (if result_of g = Void then Unit else z) \<sigma>3 \<and>
        future_get (wait (Suc (Suc n))) (handle_of k1) \<sigma>3 =
          Return (if result_of f = Void then Unit else y) \<sigma>4 \<and>
        recursive_get (wait (Suc n)) ((SharedFutureT ^^ m) P) (lvalue, SharedFuture (Some a)) \<sigma>4 =
          Return x \<sigma>4)"
proof -
  define T where "T = ((SharedFutureT ^^ m) P)"
  define args where "args = (if P = Void then [] else [x])"
  define y' where "y' = (if result_of f = Void then Unit else y)"
  define z' where "z' = (if result_of g = Void then Unit else z)"
  let ?c1 = "length (shared_states \<sigma>)"
  let ?c2 = "Suc ?c1"
  let ?s = "SharedFuture (Some a) :: 'a val"
  let ?\<sigma>1 = "chain_state l (Then_task T ?s f) \<sigma>"
  let ?\<sigma>2 = "chain_state l' (Then_task T ?s g) ?\<sigma>1"
  have fr2: "frame \<sigma> ?\<sigma>2" by (rule frame_trans [OF frame_chain_state frame_chain_state])
  have len2: "length (shared_states ?\<sigma>2) = Suc (Suc ?c1)" by simp
  have t1: "content (shared_states ?\<sigma>2 ! ?c1) = Task l (Then_task T ?s f)"
    by simp
  have t2: "content (shared_states ?\<sigma>2 ! ?c2) = Task l' (Then_task T ?s g)"
    using chain_state_simps(2) [of l' "Then_task T ?s g" ?\<sigma>1] by simp
  have invf: "\<And>w \<sigma>'. then_invoke_helper w f args \<sigma>' = Return y' (record_call f args \<sigma>')"
    unfolding args_def y'_def by (rule then_invoke_helper_value [OF f(2,3)])
  have invg: "\<And>w \<sigma>'. then_invoke_helper w g args \<sigma>' = Return z' (record_call g args \<sigma>')"
    unfolding args_def z'_def by (rule then_invoke_helper_value [OF g(2,3)])
  have first: "\<exists>\<sigma>3 \<sigma>4.
        future_get (wait (Suc (Suc n))) (Some ?c1) ?\<sigma>2 = Return y' \<sigma>3 \<and>
        future_get (wait (Suc (Suc n))) (Some ?c2) \<sigma>3 = Return z' \<sigma>4 \<and>
        recursive_get (wait (Suc n)) T (lvalue, ?s) \<sigma>4 = Return x \<sigma>4"
  proof -
    let ?\<sigma>3 = "set_content ?c1 (Ready (Inr y')) (record_call f args ?\<sigma>2)"
    let ?\<sigma>4 = "set_content ?c2 (Ready (Inr z')) (record_call g args ?\<sigma>3)"
    have a: "future_get (wait (Suc (Suc n))) (Some ?c1) ?\<sigma>2 = Return y' ?\<sigma>3"
      using future_get_chain_shared [OF src fr2 f(1), of ?c1 l n] t1 len2
      by (simp add: T_def args_def [symmetric] invf)
    have fr3: "frame \<sigma> ?\<sigma>3"
      by (intro frame_set_content_beyond frame_calls fr2) simp
    have t2': "content (shared_states ?\<sigma>3 ! ?c2) = Task l' (Then_task T ?s g)"
      using t2 by simp
    have b: "future_get (wait (Suc (Suc n))) (Some ?c2) ?\<sigma>3 = Return z' ?\<sigma>4"
      using future_get_chain_shared [OF src fr3 g(1), of ?c2 l' n] t2' len2
      by (simp add: T_def args_def [symmetric] invg)
    have fr4: "frame \<sigma> ?\<sigma>4"
      by (intro frame_set_content_beyond frame_calls fr3) simp
    from a b recursive_get_nested_shared_futures [OF layers_frame [OF src(1) fr4] src(2), of n lvalue]
    show ?thesis unfolding T_def by blast
  qed
  have second: "\<exists>\<sigma>3 \<sigma>4.
        future_get (wait (Suc (Suc n))) (Some ?c2) ?\<sigma>2 = Return z' \<sigma>3 \<and>
        future_get (wait (Suc (Suc n))) (Some ?c1) \<sigma>3 = Return y' \<sigma>4 \<and>
        recursive_get (wait (Suc n)) T (lvalue, ?s) \<sigma>4 = Return x \<sigma>4"
  proof -
    let ?\<sigma>3 = "set_content ?c2 (Ready (Inr z')) (record_call g args ?\<sigma>2)"
    let ?\<sigma>4 = "set_content ?c1 (Ready (Inr y')) (record_call f args ?\<sigma>3)"
    have a: "future_get (wait (Suc (Suc n))) (Some ?c2) ?\<sigma>2 = Return z' ?\<sigma>3"
      using future_get_chain_shared [OF src fr2 g(1), of ?c2 l' n] t2 len2
      by (simp add: T_def args_def [symmetric] invg)
    have fr3: "frame \<sigma> ?\<sigma>3"
      by (intro frame_set_content_beyond frame_calls fr2) simp
    have t1': "content (shared_states ?\<sigma>3 ! ?c1) = Task l (Then_task T ?s f)"
      using t1 by simp
    have b: "future_get (wait (Suc (Suc n))) (Some ?c1) ?\<sigma>3 = Return y' ?\<sigma>4"
      using future_get_chain_shared [OF src fr3 f(1), of ?c1 l n] t1' len2
      by (simp add: T_def args_def [symmetric] invf)
    have fr4: "frame \<sigma> ?\<sigma>4"
      by (intro frame_set_content_beyond frame_calls fr3) simp
    from a b recursive_get_nested_shared_futures [OF layers_frame [OF src(1) fr4] src(2), of n lvalue]
    show ?thesis unfolding T_def by blast
  qed
  from first second show ?thesis
    unfolding T_def [symmetric] y'_def [symmetric] z'_def [symmetric]
    by (simp add: then_shared_future_eq)
qed

subsection \<open>Chains on promises\<close>

lemma then_promise_eq:
  assumes "p < length (shared_states \<sigma>)" "\<not> retrieved (shared_states \<sigma> ! p)"
  shows "then_promise T (Some p) f l \<sigma> =
     Return (Future (Some (length (shared_states \<sigma>))))
       (chain_state l (Then_task T (Future (Some p)) f) (mark_retrieved p \<sigma>))"
  using assms by (simp add: then_promise_def get_future_fresh then_future_eq)

lemma then_detached_promise_eq:
  assumes "p < length (shared_states \<sigma>)" "\<not> retrieved (shared_states \<sigma> ! p)"
  shows "then_detached_promise T (Some p) f detached \<sigma> =
     Return (Future (Some (length (shared_states \<sigma>))))
       (detached_state T (Future (Some p)) f (mark_retrieved p \<sigma>))"
  using assms by (simp add: then_detached_promise_def get_future_fresh then_detached_future_eq)

lemma get_future_Return:
  "get_future p \<sigma> = Return k \<sigma>' \<Longrightarrow>
   \<exists>a. p = Some a \<and> a < length (shared_states \<sigma>) \<and> \<not> retrieved (shared_states \<sigma> ! a) \<and>
       k = Future (Some a) \<and> \<sigma>' = mark_retrieved a \<sigma>"
  by (cases p) (auto simp: get_future_def split: if_splits)

lemma get_future_cases:
  "(\<exists>a. p = Some a \<and> a < length (shared_states \<sigma>) \<and> \<not> retrieved (shared_states \<sigma> ! a) \<and>
       get_future p \<sigma> = Return (Future (Some a)) (mark_retrieved a \<sigma>)) \<or>
   (\<exists>e. get_future p \<sigma> = Raise e \<sigma>)"
  by (cases p) (auto simp: get_future_def)

lemma then_promise_Return:
  assumes "then_promise T (Some p) f l \<sigma> = Return k \<sigma>1"
  shows "p < length (shared_states \<sigma>) \<and> \<not> retrieved (shared_states \<sigma> ! p) \<and>
     \<sigma>1 = chain_state l (Then_task T (Future (Some p)) f) (mark_retrieved p \<sigma>)"
proof -
  from assms obtain k' \<sigma>' where g: "get_future (Some p) \<sigma> = Return k' \<sigma>'"
    by (auto simp: then_promise_def dest!: and_then_Return)
  from get_future_Return [OF g] have p: "p < length (shared_states \<sigma>)" "\<not> retrieved (shared_states \<sigma> ! p)"
    by auto
  from assms then_promise_eq [OF p, of T f l] show ?thesis using p by simp
qed

lemma then_detached_promise_Return:
  assumes "then_detached_promise T (Some p) f policy \<sigma> = Return k \<sigma>1"
  shows "p < length (shared_states \<sigma>) \<and> \<not> retrieved (shared_states \<sigma> ! p) \<and> policy = detached \<and>
     \<sigma>1 = detached_state T (Future (Some p)) f (mark_retrieved p \<sigma>)"
proof -
  from assms obtain k' \<sigma>' where g: "get_future (Some p) \<sigma> = Return k' \<sigma>'"
    and t: "then_detached_future T (handle_of k') f policy \<sigma>' = Return k \<sigma>1"
    by (auto simp: then_detached_promise_def dest!: and_then_Return)
  from get_future_Return [OF g] have p: "p < length (shared_states \<sigma>)" "\<not> retrieved (shared_states \<sigma> ! p)"
    by auto
  from t have d: "policy = detached"
    by (auto simp: then_detached_future_def split: if_splits)
  from assms then_detached_promise_eq [OF p, of T f] show ?thesis using p d by simp
qed

text \<open>Settling a promise after a call that left its shared state in place, with what it
  held, ends as it would have ended before the call.\<close>

lemma settle_after:
  assumes "a < length (shared_states \<sigma>)" "a < length (shared_states \<sigma>1)"
    and "content (shared_states \<sigma>1 ! a) = content (shared_states \<sigma> ! a)"
  shows "settle (Some a) r \<sigma>1 =
     (case settle (Some a) r \<sigma> of
        Return u \<sigma>' \<Rightarrow> Return u (set_content a (Ready r) \<sigma>1)
      | Raise e \<sigma>' \<Rightarrow> Raise e \<sigma>1
      | other \<Rightarrow> other)"
  using assms by (cases "content (shared_states \<sigma> ! a)") (simp_all add: settle_def)

text \<open>A chain on the future of a promise, of a type that is not a future type: while the
  promise is not settled the chain blocks; once it is settled with a value, the callback
  is invoked with that value; once it is settled with an error, the error is what the
  chain holds.\<close>

lemma then_helper_dispatch_pending:
  assumes "a < length (shared_states \<sigma>)" "content (shared_states \<sigma> ! a) = Pending"
    and "\<not> is_future_type T" "then_helper_instantiates T (Some a_future) f"
  shows "then_helper_dispatch (wait (Suc n)) T (Future (Some a)) f \<sigma> = Blocked"
proof -
  have i: "then_helper_instantiates T (class_of (Future (Some a))) f" using assms(4) by simp
  have "recursive_get (wait (Suc n)) T (rvalue, Future (Some a)) \<sigma> = Blocked"
    using assms(1,2,3)
    by (cases T) (simp_all add: recursive_get_primary_def future_get_def wait_Pending)
  then show ?thesis
    by (simp add: then_helper_dispatch_eq [OF i] source_arg_def)
qed

lemma then_helper_dispatch_value:
  assumes "a < length (shared_states \<sigma>)" "content (shared_states \<sigma> ! a) = Ready (Inr v)"
    and "\<not> is_future_type T" "then_helper_instantiates T (Some a_future) f"
  shows "then_helper_dispatch (wait (Suc n)) T (Future (Some a)) f \<sigma> =
     then_invoke_helper (wait (Suc n)) f (if T = Void then [] else [v]) \<sigma>"
proof -
  have i: "then_helper_instantiates T (class_of (Future (Some a))) f" using assms(4) by simp
  have "recursive_get (wait (Suc n)) T (rvalue, Future (Some a)) \<sigma> = Return v \<sigma>"
    using assms(1,2,3)
    by (cases T) (simp_all add: recursive_get_primary_def future_get_def wait_Ready)
  then show ?thesis
    by (simp add: then_helper_dispatch_eq [OF i] source_arg_def)
qed

lemma then_overload_Future:
  "then_overload T x f p \<sigma> = Return k \<sigma>' \<Longrightarrow> k = Future (handle_of k)"
proof -
  have g: "\<And>s \<sigma> k \<sigma>'. get_future s \<sigma> = Return k \<sigma>' \<Longrightarrow> k = Future (handle_of k)"
    by (auto dest: get_future_Return)
  have d: "\<And>T s f q \<sigma> k \<sigma>'. then_detached_future T s f q \<sigma> = Return k \<sigma>' \<Longrightarrow> k = Future (handle_of k)"
    by (auto simp: then_detached_future_def make_shared_promise_def alloc_def
        split: if_splits dest: g)
  have ds: "\<And>T s f q \<sigma> k \<sigma>'. then_detached_shared_future T s f q \<sigma> = Return k \<sigma>' \<Longrightarrow> k = Future (handle_of k)"
    by (auto simp: then_detached_shared_future_def make_shared_promise_def alloc_def
        split: if_splits dest: g)
  have dp: "\<And>T s f q \<sigma> k \<sigma>'. then_detached_promise T s f q \<sigma> = Return k \<sigma>' \<Longrightarrow> k = Future (handle_of k)"
    by (auto simp: then_detached_promise_def dest!: and_then_Return dest: d)
  have dr: "\<And>T s f q \<sigma> k \<sigma>'.
      and_then (then_detached_future_ref T s f q \<sigma>) (\<lambda>r \<sigma>'. Return (fst r) \<sigma>') = Return k \<sigma>' \<Longrightarrow>
      k = Future (handle_of k)"
    by (auto simp: then_detached_future_ref_def dest!: and_then_Return dest: d)
  have a: "\<And>l t \<sigma> k \<sigma>'. std_async l t \<sigma> = Return k \<sigma>' \<Longrightarrow> k = Future (handle_of k)"
    by (auto simp: std_async_eq)
  have pr: "\<And>T s f l \<sigma> k \<sigma>'. then_promise T s f l \<sigma> = Return k \<sigma>' \<Longrightarrow> k = Future (handle_of k)"
    by (auto simp: then_promise_def then_future_def dest!: and_then_Return dest: a)
  have fr: "\<And>T s f l \<sigma> k \<sigma>'.
      and_then (then_future_ref T s f l \<sigma>) (\<lambda>r \<sigma>'. Return (fst r) \<sigma>') = Return k \<sigma>' \<Longrightarrow>
      k = Future (handle_of k)"
    by (auto simp: then_future_ref_def then_future_def dest!: and_then_Return dest: a)
  assume r: "then_overload T x f p \<sigma> = Return k \<sigma>'"
  obtain c s where x: "x = (c, s)" by (cases x)
  show ?thesis
  proof (cases p)
    case (then_policy q)
    with r x show ?thesis
      by (cases s; cases c) (auto dest: d ds dp dr)
  next
    case no_policy
    with r x show ?thesis
      by (cases s; cases c)
         (auto simp: then_future_def then_shared_future_def dest: a pr fr)
  next
    case (std_policy l)
    with r x show ?thesis
      by (cases s; cases c)
         (auto simp: then_future_def then_shared_future_def dest: a pr fr)
  qed
qed

subsection \<open>What a chain yields for the result of its callback\<close>

lemma then_invoke_helper_futures:
  assumes "result_of f = (FutureT ^^ Suc m) R" "\<not> is_future_type R"
    and "body f args = Inr (Future (Some b))" "layers \<sigma> Future m b v" "frame \<sigma> \<sigma>'"
  shows "then_invoke_helper (wait (Suc n)) f args \<sigma>' = Return v (record_call f args \<sigma>')"
proof -
  have "layers (record_call f args \<sigma>') Future m b v"
    by (rule layers_frame [OF assms(4) frame_calls [OF assms(5)]])
  from recursive_get_nested_futures [OF this assms(2), of n] assms(1,3)
    instantiates_futures [OF assms(2), of m]
  show ?thesis
    by (simp add: then_invoke_helper_def then_invoke_helper_instantiates_def invoke_eq)
qed

lemma then_invoke_helper_shared_futures:
  assumes "result_of f = (SharedFutureT ^^ Suc m) R" "\<not> is_future_type R"
    and "body f args = Inr (SharedFuture (Some b))" "layers \<sigma> SharedFuture m b v" "frame \<sigma> \<sigma>'"
  shows "then_invoke_helper (wait (Suc n)) f args \<sigma>' = Return v (record_call f args \<sigma>')"
proof -
  have "layers (record_call f args \<sigma>') SharedFuture m b v"
    by (rule layers_frame [OF assms(4) frame_calls [OF assms(5)]])
  from recursive_get_nested_shared_futures [OF this assms(2), of n lvalue] assms(1,3)
    instantiates_shared_futures [OF assms(2), of m lvalue]
  show ?thesis
    by (simp add: then_invoke_helper_def then_invoke_helper_instantiates_def invoke_eq)
qed

text \<open>A future that is ready with \<open>x\<close>, of a type that is not a future type, chained
  with a callback that returns on \<open>x\<close>. If the callback returns a future nested in
  futures, every layer ready, the chain yields the innermost value; so it does if the
  callback returns a shared future nested in shared futures (the code returns a reference
  into the innermost shared state there, which is good while a shared future to the
  returned state is kept, by the callback for one); if the callback returns a plain value,
  the chain yields that value.\<close>

lemma then_callback_result:
  assumes "a < length (shared_states \<sigma>)" "content (shared_states \<sigma> ! a) = Ready (Inr x)"
    and "\<not> is_future_type T" "then_helper_instantiates T (Some a_future) f"
    and "body f (if T = Void then [] else [x]) = Inr r"
  shows "result_of f = (FutureT ^^ Suc m) R \<Longrightarrow> \<not> is_future_type R \<Longrightarrow>
      r = Future (Some b) \<Longrightarrow> layers \<sigma> Future m b v \<Longrightarrow>
      \<exists>\<sigma>'. requested (Suc (Suc n)) (then_future T (Some a) f l \<sigma>) = Return v \<sigma>'"
    and "result_of f = (SharedFutureT ^^ Suc m) R \<Longrightarrow> \<not> is_future_type R \<Longrightarrow>
      r = SharedFuture (Some b) \<Longrightarrow> layers \<sigma> SharedFuture m b v \<Longrightarrow>
      \<exists>\<sigma>'. requested (Suc (Suc n)) (then_future T (Some a) f l \<sigma>) = Return v \<sigma>'"
    and "result_of f \<noteq> Void \<Longrightarrow> \<not> is_future_type (result_of f) \<Longrightarrow>
      \<exists>\<sigma>'. requested (Suc (Suc n)) (then_future T (Some a) f l \<sigma>) = Return r \<sigma>'"
proof -
  define args where "args = (if T = Void then [] else [x])"
  let ?\<sigma>1 = "chain_state l (Then_task T (Future (Some a)) f) \<sigma>"
  have d: "then_helper_dispatch (wait (Suc n)) T (Future (Some a)) f ?\<sigma>1 =
      then_invoke_helper (wait (Suc n)) f args ?\<sigma>1"
    unfolding args_def
    using then_helper_dispatch_value [OF _ _ assms(3,4), of a ?\<sigma>1 x n] assms(1,2) by simp
  have b: "body f args = Inr r" using assms(5) by (simp add: args_def)
  {
    assume h: "result_of f = (FutureT ^^ Suc m) R" "\<not> is_future_type R" "r = Future (Some b)"
      "layers \<sigma> Future m b v"
    have "then_invoke_helper (wait (Suc n)) f args ?\<sigma>1 = Return v (record_call f args ?\<sigma>1)"
      using then_invoke_helper_futures [OF h(1,2) _ h(4) frame_chain_state, of args] b h(3)
      by simp
    with d show "\<exists>\<sigma>'. requested (Suc (Suc n)) (then_future T (Some a) f l \<sigma>) = Return v \<sigma>'"
      by (simp add: then_future_def requested_std_async)
  }
  {
    assume h: "result_of f = (SharedFutureT ^^ Suc m) R" "\<not> is_future_type R"
      "r = SharedFuture (Some b)" "layers \<sigma> SharedFuture m b v"
    have "then_invoke_helper (wait (Suc n)) f args ?\<sigma>1 = Return v (record_call f args ?\<sigma>1)"
      using then_invoke_helper_shared_futures [OF h(1,2) _ h(4) frame_chain_state, of args] b h(3)
      by simp
    with d show "\<exists>\<sigma>'. requested (Suc (Suc n)) (then_future T (Some a) f l \<sigma>) = Return v \<sigma>'"
      by (simp add: then_future_def requested_std_async)
  }
  {
    assume h: "result_of f \<noteq> Void" "\<not> is_future_type (result_of f)"
    have "then_invoke_helper (wait (Suc n)) f args ?\<sigma>1 = Return r (record_call f args ?\<sigma>1)"
      by (rule then_invoke_helper_plain [OF h b])
    with d show "\<exists>\<sigma>'. requested (Suc (Suc n)) (then_future T (Some a) f l \<sigma>) = Return r \<sigma>'"
      by (simp add: then_future_def requested_std_async)
  }
qed

section \<open>The recursive resolver\<close>

text \<open>
  C1. The claim: a value of type Future/SharedFuture nested n levels around a payload
  resolves, through \<^verbatim>\<open>recursive_get\<close>, to the innermost payload. The code does not do
  that for a shared future of a future: \<^verbatim>\<open>shared_future<future<P>>::get()\<close> yields a
  reference to a const \<^verbatim>\<open>future<P>\<close>, and no overload of \<^verbatim>\<open>recursive_get<P>::get\<close>
  takes one, for any \<open>P\<close>. Evaluated on a \<^verbatim>\<open>shared_future<future<int>>\<close> whose two
  layers are ready, the innermost value being 42: the call is ill-formed. (Futures nested
  in futures and shared futures nested in shared futures are resolved, at every depth:
  \<open>recursive_get_nested_futures\<close>, \<open>recursive_get_nested_shared_futures\<close>.)
\<close>

theorem recursive_get_shared_future_of_future:
  "recursive_get (wait (Suc n)) (FutureT Payload) (lvalue, SharedFuture (Some 0))
     (state_of [Ready (Inr (Future (Some 1))), Ready (Inr (Value (42::int)))]) = Ill_formed"
  by (rule recursive_get_shared_future_of_future_ill_formed)

section \<open>Errors of the source, and callbacks that return nothing\<close>

text \<open>
  C3. Take a chain whose instantiation compiles (\<open>then_helper_instantiates\<close>: the source
  type is not one that \<^verbatim>\<open>recursive_get\<close> or \<^verbatim>\<open>then_helper\<close> has no well-formed call
  for, and no more is asked of the callback). If the source, a future or a shared future,
  is settled with an error \<open>e\<close>, requesting the result of the chain raises \<open>e\<close>, and the
  record of invocations is what it was before the chain was built: the callback was not
  invoked. This holds for every such source type and callback (whatever its result type,
  \<^verbatim>\<open>void\<close> included) and every launch policy: under a policy of the standard library
  whether the request runs or joins the task or the task's thread ran before, and under
  \<open>detached\<close> once the thread has run, which it does without raising.

  If the source is a future nested \<open>m\<close> levels deep in futures, or a shared future nested
  \<open>m\<close> levels deep in shared futures, with every layer ready and the innermost value \<open>x\<close>,
  and the callback's result type is \<^verbatim>\<open>void\<close> and it returns, then the result of the
  chain carries no value (\<open>Unit\<close>) and the callback was invoked once, with \<open>x\<close> (with
  nothing if the source type is \<^verbatim>\<open>void\<close>).
\<close>

theorem then_source_error:
  "(a < length (shared_states \<sigma>) \<and> content (shared_states \<sigma> ! a) = Ready (Inl e) \<and>
    then_helper_instantiates T (Some a_future) f \<longrightarrow>
      (\<exists>\<sigma>'. requested (Suc (Suc n)) (then_future T (Some a) f l \<sigma>) = Raise e \<sigma>' \<and>
         calls \<sigma>' = calls \<sigma>) \<and>
      (\<exists>\<sigma>'. requested_after_run (Suc (Suc n)) \<sigma> (then_future T (Some a) f l \<sigma>) = Raise e \<sigma>' \<and>
         calls \<sigma>' = calls \<sigma>) \<and>
      (\<exists>\<sigma>'. requested_after_run (Suc (Suc n)) \<sigma> (then_detached_future T (Some a) f detached \<sigma>) =
         Raise e \<sigma>' \<and> calls \<sigma>' = calls \<sigma>)) \<and>
   (a < length (shared_states \<sigma>) \<and> content (shared_states \<sigma> ! a) = Ready (Inl e) \<and>
    then_helper_instantiates T (Some a_shared_future) f \<longrightarrow>
      (\<exists>\<sigma>'. requested (Suc (Suc n)) (then_shared_future T (Some a) f l \<sigma>) = Raise e \<sigma>' \<and>
         calls \<sigma>' = calls \<sigma>) \<and>
      (\<exists>\<sigma>'. requested_after_run (Suc (Suc n)) \<sigma> (then_shared_future T (Some a) f l \<sigma>) =
         Raise e \<sigma>' \<and> calls \<sigma>' = calls \<sigma>) \<and>
      (\<exists>\<sigma>'. requested_after_run (Suc (Suc n)) \<sigma>
             (then_detached_shared_future T (Some a) f detached \<sigma>) =
         Raise e \<sigma>' \<and> calls \<sigma>' = calls \<sigma>)) \<and>
   (layers \<sigma> Future m a x \<and> \<not> is_future_type P \<and>
    then_helper_instantiates ((FutureT ^^ m) P) (Some a_future) f \<and>
    result_of f = Void \<and> body f (if P = Void then [] else [x]) = Inr r \<longrightarrow>
      (\<exists>\<sigma>'. requested (Suc (Suc n)) (then_future ((FutureT ^^ m) P) (Some a) f l \<sigma>) =
         Return Unit \<sigma>' \<and> calls \<sigma>' = calls \<sigma> @ [(ident f, if P = Void then [] else [x])]) \<and>
      (\<exists>\<sigma>'. requested_after_run (Suc (Suc n)) \<sigma> (then_future ((FutureT ^^ m) P) (Some a) f l \<sigma>) =
         Return Unit \<sigma>' \<and> calls \<sigma>' = calls \<sigma> @ [(ident f, if P = Void then [] else [x])]) \<and>
      (\<exists>\<sigma>'. requested_after_run (Suc (Suc n)) \<sigma>
             (then_detached_future ((FutureT ^^ m) P) (Some a) f detached \<sigma>) =
         Return Unit \<sigma>' \<and> calls \<sigma>' = calls \<sigma> @ [(ident f, if P = Void then [] else [x])])) \<and>
   (layers \<sigma> SharedFuture m a x \<and> \<not> is_future_type P \<and>
    then_helper_instantiates ((SharedFutureT ^^ m) P) (Some a_shared_future) f \<and>
    result_of f = Void \<and> body f (if P = Void then [] else [x]) = Inr r \<longrightarrow>
      (\<exists>\<sigma>'. requested (Suc (Suc n)) (then_shared_future ((SharedFutureT ^^ m) P) (Some a) f l \<sigma>) =
         Return Unit \<sigma>' \<and> calls \<sigma>' = calls \<sigma> @ [(ident f, if P = Void then [] else [x])]) \<and>
      (\<exists>\<sigma>'. requested_after_run (Suc (Suc n)) \<sigma>
             (then_shared_future ((SharedFutureT ^^ m) P) (Some a) f l \<sigma>) =
         Return Unit \<sigma>' \<and> calls \<sigma>' = calls \<sigma> @ [(ident f, if P = Void then [] else [x])]) \<and>
      (\<exists>\<sigma>'. requested_after_run (Suc (Suc n)) \<sigma>
             (then_detached_shared_future ((SharedFutureT ^^ m) P) (Some a) f detached \<sigma>) =
         Return Unit \<sigma>' \<and> calls \<sigma>' = calls \<sigma> @ [(ident f, if P = Void then [] else [x])]))"
proof (intro conjI impI; (elim conjE)?)
  assume a: "a < length (shared_states \<sigma>)" "content (shared_states \<sigma> ! a) = Ready (Inl e)"
    and i: "then_helper_instantiates T (Some a_future) f"
  have s: "Future (Some a) = Future (Some a) \<or> Future (Some a) = SharedFuture (Some a)" by simp
  have i': "then_helper_instantiates T (class_of (Future (Some a))) f" using i by simp
  show std: "\<exists>\<sigma>'. requested (Suc (Suc n)) (then_future T (Some a) f l \<sigma>) = Raise e \<sigma>' \<and>
      calls \<sigma>' = calls \<sigma>"
    unfolding then_future_def by (rule source_error_std [OF a s i'])
  then show "\<exists>\<sigma>'. requested_after_run (Suc (Suc n)) \<sigma> (then_future T (Some a) f l \<sigma>) = Raise e \<sigma>' \<and>
      calls \<sigma>' = calls \<sigma>"
    by (simp add: then_future_def requested_after_run_std_async)
  show "\<exists>\<sigma>'. requested_after_run (Suc (Suc n)) \<sigma> (then_detached_future T (Some a) f detached \<sigma>) =
      Raise e \<sigma>' \<and> calls \<sigma>' = calls \<sigma>"
    unfolding then_detached_future_eq by (rule source_error_detached [OF a s i'])
next
  assume a: "a < length (shared_states \<sigma>)" "content (shared_states \<sigma> ! a) = Ready (Inl e)"
    and i: "then_helper_instantiates T (Some a_shared_future) f"
  have s: "SharedFuture (Some a) = Future (Some a) \<or> SharedFuture (Some a) = SharedFuture (Some a)"
    by simp
  have i': "then_helper_instantiates T (class_of (SharedFuture (Some a))) f" using i by simp
  show std: "\<exists>\<sigma>'. requested (Suc (Suc n)) (then_shared_future T (Some a) f l \<sigma>) = Raise e \<sigma>' \<and>
      calls \<sigma>' = calls \<sigma>"
    unfolding then_shared_future_def by (rule source_error_std [OF a s i'])
  then show "\<exists>\<sigma>'. requested_after_run (Suc (Suc n)) \<sigma> (then_shared_future T (Some a) f l \<sigma>) =
      Raise e \<sigma>' \<and> calls \<sigma>' = calls \<sigma>"
    by (simp add: then_shared_future_def requested_after_run_std_async)
  show "\<exists>\<sigma>'. requested_after_run (Suc (Suc n)) \<sigma>
        (then_detached_shared_future T (Some a) f detached \<sigma>) =
      Raise e \<sigma>' \<and> calls \<sigma>' = calls \<sigma>"
    unfolding then_detached_shared_future_eq by (rule source_error_detached [OF a s i'])
next
  define args where "args = (if P = Void then [] else [x])"
  assume l: "layers \<sigma> Future m a x" and P: "\<not> is_future_type P"
    and i: "then_helper_instantiates ((FutureT ^^ m) P) (Some a_future) f"
    and v: "result_of f = Void" "body f (if P = Void then [] else [x]) = Inr r"
  have d: "then_helper_dispatch (wait (Suc k)) ((FutureT ^^ m) P) (Future (Some a)) f \<sigma>1 =
      then_invoke_helper (wait (Suc k)) f args \<sigma>1" if "frame \<sigma> \<sigma>1" for k \<sigma>1
    unfolding args_def by (rule then_helper_dispatch_futures [OF layers_frame [OF l that] P i])
  have b: "body f args = Inr r" using v(2) by (simp add: args_def)
  show std: "\<exists>\<sigma>'. requested (Suc (Suc n)) (then_future ((FutureT ^^ m) P) (Some a) f l \<sigma>) =
      Return Unit \<sigma>' \<and> calls \<sigma>' = calls \<sigma> @ [(ident f, if P = Void then [] else [x])]"
    unfolding then_future_def args_def [symmetric]
    by (rule invoked_std [OF d v(1) b]) simp
  then show "\<exists>\<sigma>'. requested_after_run (Suc (Suc n)) \<sigma> (then_future ((FutureT ^^ m) P) (Some a) f l \<sigma>) =
      Return Unit \<sigma>' \<and> calls \<sigma>' = calls \<sigma> @ [(ident f, if P = Void then [] else [x])]"
    by (simp add: then_future_def requested_after_run_std_async)
  show "\<exists>\<sigma>'. requested_after_run (Suc (Suc n)) \<sigma>
        (then_detached_future ((FutureT ^^ m) P) (Some a) f detached \<sigma>) =
      Return Unit \<sigma>' \<and> calls \<sigma>' = calls \<sigma> @ [(ident f, if P = Void then [] else [x])]"
    unfolding then_detached_future_eq args_def [symmetric]
    by (rule invoked_detached [OF d v(1) b]) simp
next
  define args where "args = (if P = Void then [] else [x])"
  assume l: "layers \<sigma> SharedFuture m a x" and P: "\<not> is_future_type P"
    and i: "then_helper_instantiates ((SharedFutureT ^^ m) P) (Some a_shared_future) f"
    and v: "result_of f = Void" "body f (if P = Void then [] else [x]) = Inr r"
  have d: "then_helper_dispatch (wait (Suc k)) ((SharedFutureT ^^ m) P) (SharedFuture (Some a)) f \<sigma>1 =
      then_invoke_helper (wait (Suc k)) f args \<sigma>1" if "frame \<sigma> \<sigma>1" for k \<sigma>1
    unfolding args_def
    by (rule then_helper_dispatch_shared_futures [OF layers_frame [OF l that] P i])
  have b: "body f args = Inr r" using v(2) by (simp add: args_def)
  show std: "\<exists>\<sigma>'. requested (Suc (Suc n))
        (then_shared_future ((SharedFutureT ^^ m) P) (Some a) f l \<sigma>) =
      Return Unit \<sigma>' \<and> calls \<sigma>' = calls \<sigma> @ [(ident f, if P = Void then [] else [x])]"
    unfolding then_shared_future_def args_def [symmetric]
    by (rule invoked_std [OF d v(1) b]) simp
  then show "\<exists>\<sigma>'. requested_after_run (Suc (Suc n)) \<sigma>
        (then_shared_future ((SharedFutureT ^^ m) P) (Some a) f l \<sigma>) =
      Return Unit \<sigma>' \<and> calls \<sigma>' = calls \<sigma> @ [(ident f, if P = Void then [] else [x])]"
    by (simp add: then_shared_future_def requested_after_run_std_async)
  show "\<exists>\<sigma>'. requested_after_run (Suc (Suc n)) \<sigma>
        (then_detached_shared_future ((SharedFutureT ^^ m) P) (Some a) f detached \<sigma>) =
      Return Unit \<sigma>' \<and> calls \<sigma>' = calls \<sigma> @ [(ident f, if P = Void then [] else [x])]"
    unfolding then_detached_shared_future_eq args_def [symmetric]
    by (rule invoked_detached [OF d v(1) b]) simp
qed

theorem then_source_error_witness:
  "(\<exists>\<sigma>'. requested (Suc (Suc 0))
           (then_future Payload (Some 0) void_callback async (state_of [Ready (Inl (thrown 7))])) =
         Raise (thrown 7) \<sigma>' \<and> calls \<sigma>' = []) \<and>
   (\<exists>\<sigma>'. requested_after_run (Suc (Suc 0)) (state_of [Ready (Inl (thrown 7))])
           (then_detached_shared_future Payload (Some 0) void_callback detached
              (state_of [Ready (Inl (thrown 7))])) =
         Raise (thrown 7) \<sigma>' \<and> calls \<sigma>' = []) \<and>
   (\<exists>\<sigma>'. requested (Suc (Suc 0))
           (then_future (FutureT Payload) (Some 0) void_callback deferred
              (state_of [Ready (Inr (Future (Some 1))), Ready (Inr (Value 5))])) =
         Return Unit \<sigma>' \<and> calls \<sigma>' = [(1, [Value 5])]) \<and>
   (\<exists>\<sigma>'. requested_after_run (Suc (Suc 0)) (state_of [Ready (Inr (Value 5))])
           (then_detached_shared_future Payload (Some 0) void_callback detached
              (state_of [Ready (Inr (Value 5))])) =
         Return Unit \<sigma>' \<and> calls \<sigma>' = [(1, [Value 5])])"
proof -
  let ?err = "state_of [Ready (Inl (thrown 7)) :: int content]"
  let ?ok = "state_of [Ready (Inr (Value (5::int)))]"
  let ?nested = "state_of [Ready (Inr (Future (Some 1))), Ready (Inr (Value (5::int)))]"
  have e: "0 < length (shared_states ?err) \<and> content (shared_states ?err ! 0) = Ready (Inl (thrown 7))"
    by (simp add: state_of_def)
  have i: "then_helper_instantiates Payload (Some a_future) void_callback"
    "then_helper_instantiates Payload (Some a_shared_future) void_callback"
    "then_helper_instantiates (FutureT Payload) (Some a_future) void_callback"
    by (simp_all add: then_helper_instantiates_def then_invoke_helper_instantiates_def
        void_callback_def)
  have v: "result_of void_callback = Void \<and>
      body void_callback (if Payload = Void then [] else [Value 5]) = Inr Unit"
    by (simp add: void_callback_def)
  have f: "layers ?nested Future (Suc 0) 0 (Value 5)"
    by (simp add: state_of_def)
  have s: "layers ?ok SharedFuture 0 0 (Value 5)"
    by (simp add: state_of_def)
  have c: "ident void_callback = 1"
    by (simp add: void_callback_def)
  note err = then_source_error [where a = 0 and \<sigma> = ?err and e = "thrown 7" and n = 0
      and T = Payload and f = void_callback and l = async and m = 0 and x = Unit and P = Payload
      and r = Unit]
  note nested = then_source_error [where \<sigma> = ?nested and n = 0 and P = Payload
      and f = void_callback and l = deferred and x = "Value 5" and r = Unit and a = 0
      and m = "Suc 0" and T = Payload and e = "thrown 7"]
  note ok = then_source_error [where \<sigma> = ?ok and n = 0 and P = Payload and f = void_callback
      and x = "Value 5" and r = Unit and a = 0 and m = 0 and l = deferred and T = Payload
      and e = "thrown 7"]
  have 1: "\<exists>\<sigma>'. requested (Suc (Suc 0)) (then_future Payload (Some 0) void_callback async ?err) =
      Raise (thrown 7) \<sigma>' \<and> calls \<sigma>' = []"
    using err [THEN conjunct1] e i(1) by (simp add: c)
  have 2: "\<exists>\<sigma>'. requested_after_run (Suc (Suc 0)) ?err
        (then_detached_shared_future Payload (Some 0) void_callback detached ?err) =
      Raise (thrown 7) \<sigma>' \<and> calls \<sigma>' = []"
    using err [THEN conjunct2, THEN conjunct1] e i(2) by (simp add: c)
  have 3: "\<exists>\<sigma>'. requested (Suc (Suc 0))
        (then_future (FutureT Payload) (Some 0) void_callback deferred ?nested) =
      Return Unit \<sigma>' \<and> calls \<sigma>' = [(1, [Value 5])]"
    using nested [THEN conjunct2, THEN conjunct2, THEN conjunct1] f i(3) v by (simp add: c)
  have 4: "\<exists>\<sigma>'. requested_after_run (Suc (Suc 0)) ?ok
        (then_detached_shared_future Payload (Some 0) void_callback detached ?ok) =
      Return Unit \<sigma>' \<and> calls \<sigma>' = [(1, [Value 5])]"
    using ok [THEN conjunct2, THEN conjunct2, THEN conjunct2] s i(2) v by (simp add: c)
  from 1 2 3 4 show ?thesis by (intro conjI)
qed

section \<open>The detached runner\<close>

text \<open>
  C4. What a detached thread runs, \<^verbatim>\<open>detached_then_helper<P>::dispatch(p, s, f)\<close>, on a
  promise \<open>p\<close> that is not settled yet: whatever the sequence resolve source, invoke
  callback, resolve result raises is caught and becomes the error that settles \<open>p\<close>, and
  the call returns; a result becomes the value that settles \<open>p\<close>, no payload (\<open>Unit\<close>) in
  the specialisation for \<^verbatim>\<open>void\<close>. In no case does the call raise: nothing escapes the
  thread. The thread that a detached \<^verbatim>\<open>then\<close> spawns is such a call, on the promise the
  overload has just made, so this is what it does when it runs.
\<close>

theorem detached_then_helper_catches:
  "(p < length (shared_states \<sigma>) \<and> content (shared_states \<sigma> ! p) = Pending \<longrightarrow>
      detached_then_helper_dispatch (wait n) P (Some p) K s f \<sigma> =
        (case then_helper_dispatch (wait n) K s f \<sigma> of
           Return v \<sigma>' \<Rightarrow> Return () (set_content p (Ready (Inr (if P = Void then Unit else v))) \<sigma>')
         | Raise e \<sigma>' \<Rightarrow> Return () (set_content p (Ready (Inl e)) \<sigma>')
         | Blocked \<Rightarrow> Blocked
         | Ill_formed \<Rightarrow> Ill_formed
         | Aborted \<Rightarrow> Aborted
         | Out_of_fuel \<Rightarrow> Out_of_fuel)) \<and>
   threads (detached_state T s f \<sigma>) =
     threads \<sigma> @ [Thread (Some (length (shared_states \<sigma>))) (innermost (result_of f)) T s f] \<and>
   run_thread n (Thread (Some (length (shared_states \<sigma>))) (innermost (result_of f)) T s f)
       (detached_state T s f \<sigma>) =
     (case then_helper_dispatch (wait n) T s f (detached_state T s f \<sigma>) of
        Return v \<sigma>' \<Rightarrow>
          Return () (set_content (length (shared_states \<sigma>))
            (Ready (Inr (if innermost (result_of f) = Void then Unit else v))) \<sigma>')
      | Raise e \<sigma>' \<Rightarrow> Return () (set_content (length (shared_states \<sigma>)) (Ready (Inl e)) \<sigma>')
      | Blocked \<Rightarrow> Blocked
      | Ill_formed \<Rightarrow> Ill_formed
      | Aborted \<Rightarrow> Aborted
      | Out_of_fuel \<Rightarrow> Out_of_fuel)"
proof (intro conjI impI)
  assume "p < length (shared_states \<sigma>) \<and> content (shared_states \<sigma> ! p) = Pending"
  then show "detached_then_helper_dispatch (wait n) P (Some p) K s f \<sigma> =
        (case then_helper_dispatch (wait n) K s f \<sigma> of
           Return v \<sigma>' \<Rightarrow> Return () (set_content p (Ready (Inr (if P = Void then Unit else v))) \<sigma>')
         | Raise e \<sigma>' \<Rightarrow> Return () (set_content p (Ready (Inl e)) \<sigma>')
         | Blocked \<Rightarrow> Blocked
         | Ill_formed \<Rightarrow> Ill_formed
         | Aborted \<Rightarrow> Aborted
         | Out_of_fuel \<Rightarrow> Out_of_fuel)"
    using detached_then_helper_dispatch_eq [OF framed_wait, of p \<sigma> n P K s f] by simp
next
  show "threads (detached_state T s f \<sigma>) =
     threads \<sigma> @ [Thread (Some (length (shared_states \<sigma>))) (innermost (result_of f)) T s f]"
    by simp
next
  show "run_thread n (Thread (Some (length (shared_states \<sigma>))) (innermost (result_of f)) T s f)
       (detached_state T s f \<sigma>) =
     (case then_helper_dispatch (wait n) T s f (detached_state T s f \<sigma>) of
        Return v \<sigma>' \<Rightarrow>
          Return () (set_content (length (shared_states \<sigma>))
            (Ready (Inr (if innermost (result_of f) = Void then Unit else v))) \<sigma>')
      | Raise e \<sigma>' \<Rightarrow> Return () (set_content (length (shared_states \<sigma>)) (Ready (Inl e)) \<sigma>')
      | Blocked \<Rightarrow> Blocked
      | Ill_formed \<Rightarrow> Ill_formed
      | Aborted \<Rightarrow> Aborted
      | Out_of_fuel \<Rightarrow> Out_of_fuel)"
    unfolding run_thread.simps
    by (rule detached_then_helper_dispatch_eq [OF framed_wait]) simp_all
qed

theorem detached_then_helper_catches_witness:
  "detached_then_helper_dispatch (wait (Suc 0)) Payload (Some 1) Payload (Future (Some 0))
      identity_callback (state_of [Ready (Inl (thrown 7)), Pending]) =
     Return () (set_content 1 (Ready (Inl (thrown 7))) (state_of [Ready (Inl (thrown 7)), Pending]))"
proof -
  let ?\<sigma> = "state_of [Ready (Inl (thrown 7)), Pending :: int content]"
  have p: "1 < length (shared_states ?\<sigma>) \<and> content (shared_states ?\<sigma> ! 1) = Pending"
    by (simp add: state_of_def)
  have "then_helper_dispatch (wait (Suc 0)) Payload (Future (Some 0)) identity_callback ?\<sigma> =
      Raise (thrown 7) ?\<sigma>"
    by (rule then_helper_dispatch_source_error [where a = 0])
       (simp_all add: state_of_def then_helper_instantiates_def
          then_invoke_helper_instantiates_def identity_callback_def)
  with p detached_then_helper_catches [where p = 1 and \<sigma> = ?\<sigma> and n = "Suc 0" and P = Payload
      and K = Payload and s = "Future (Some 0)" and f = identity_callback]
  show ?thesis by simp
qed

section \<open>Callbacks that return futures\<close>

text \<open>
  C2. The claim: whatever future type a callback returns, the chain resolves to the
  innermost payload. For a returned future or shared future that \<^verbatim>\<open>recursive_get\<close> can
  resolve this holds (\<open>then_callback_result\<close>, which also covers the callback that returns
  a plain value). A callback that returns a \<^verbatim>\<open>shared_future<future<int>>\<close> runs into the
  missing overload of C1: \<^verbatim>\<open>optional_get<shared_future<future<int>>>::get\<close> calls
  \<^verbatim>\<open>recursive_get<future<int>>::get\<close>, whose call of \<^verbatim>\<open>recursive_get<int>::get\<close> on a
  reference to a const future is ill-formed, so the chain cannot be instantiated. Evaluated
  on a source that is ready with 1 and a callback returning such a shared future, both of
  whose layers are ready:
\<close>

theorem then_callback_shared_future_of_future:
  "requested (Suc (Suc n))
     (then_future Payload (Some 0) (shared_future_of_future_callback 1) deferred
        (state_of [Ready (Inr (Value 1)), Ready (Inr (Future (Some 2))), Ready (Inr (Value 42))])) =
   Ill_formed"
proof -
  let ?f = "shared_future_of_future_callback 1 :: int callback"
  have "\<not> then_helper_instantiates Payload (class_of (Future (Some 0))) ?f"
    by (simp add: then_helper_instantiates_def then_invoke_helper_instantiates_def
        shared_future_of_future_callback_def)
  then show ?thesis
    by (simp add: then_future_def requested_std_async then_helper_dispatch_ill_formed)
qed

section \<open>The identity callback under the deferred policy\<close>

text \<open>
  C5. A future of a payload type that is settled with the value \<open>v\<close>, chained under
  \<open>deferred\<close> with a callback of result type \<open>T\<close> that returns its argument: the call of
  \<^verbatim>\<open>then\<close> returns a future and invokes nothing (the work is lazy); the first request
  for the result runs the work, which invokes the callback once, with \<open>v\<close>, and yields
  \<open>v\<close>; from then on the shared state of the chain is ready with \<open>v\<close>, and any further wait
  on it hands out \<open>v\<close> and changes nothing, so the work ran exactly once.
\<close>

theorem then_identity_deferred:
  assumes "a < length (shared_states \<sigma>)" and "content (shared_states \<sigma> ! a) = Ready (Inr v)"
    and "T \<noteq> Void" and "\<not> is_future_type T" and "result_of f = T" and "body f [v] = Inr v"
  shows "\<exists>k \<sigma>1 \<sigma>2.
     then_future T (Some a) f deferred \<sigma> = Return (Future (Some k)) \<sigma>1 \<and>
     calls \<sigma>1 = calls \<sigma> \<and>
     future_get (wait (Suc (Suc n))) (Some k) \<sigma>1 = Return v \<sigma>2 \<and>
     calls \<sigma>2 = calls \<sigma> @ [(ident f, [v])] \<and>
     (\<forall>m. wait (Suc m) k \<sigma>2 = Return v \<sigma>2)"
proof -
  let ?k = "length (shared_states \<sigma>)"
  let ?\<sigma>1 = "push \<lparr>content = Task deferred (Then_task T (Future (Some a)) f), retrieved = True\<rparr> \<sigma>"
  let ?\<sigma>2 = "set_content ?k (Ready (Inr v)) (record_call f [v] ?\<sigma>1)"
  have "innermost T = T" using assms(4) by (cases T) simp_all
  then have i: "then_helper_instantiates T (Some a_future) f"
    using assms(3,4,5)
    by (simp add: then_helper_instantiates_def instantiates_plain
        then_invoke_helper_instantiates_plain)
  have d: "then_helper_dispatch (wait (Suc n)) T (Future (Some a)) f ?\<sigma>1 =
      then_invoke_helper (wait (Suc n)) f [v] ?\<sigma>1"
    using then_helper_dispatch_value [OF _ _ assms(4) i, of a ?\<sigma>1 v n] assms(1,2,3) by simp
  have inv: "then_invoke_helper (wait (Suc n)) f [v] ?\<sigma>1 = Return v (record_call f [v] ?\<sigma>1)"
    using assms(3,4,5) by (intro then_invoke_helper_plain [OF _ _ assms(6)]) simp_all
  have "future_get (wait (Suc (Suc n))) (Some ?k) ?\<sigma>1 = Return v ?\<sigma>2"
    using d inv by (simp add: future_get_def wait_Task [where l = deferred])
  moreover have "\<forall>m. wait (Suc m) ?k ?\<sigma>2 = Return v ?\<sigma>2"
    by (simp add: wait_Ready)
  ultimately show ?thesis
    by (simp add: then_future_eq chain_state_deferred)
qed

theorem then_identity_deferred_witness:
  "\<exists>k \<sigma>1 \<sigma>2.
     then_future Payload (Some 0) identity_callback deferred (state_of [Ready (Inr (Value 42))]) =
       Return (Future (Some k)) \<sigma>1 \<and>
     calls \<sigma>1 = [] \<and>
     future_get (wait (Suc (Suc 0))) (Some k) \<sigma>1 = Return (Value 42) \<sigma>2 \<and>
     calls \<sigma>2 = [(0, [Value 42])] \<and>
     (\<forall>m. wait (Suc m) k \<sigma>2 = Return (Value 42) \<sigma>2)"
proof -
  let ?\<sigma> = "state_of [Ready (Inr (Value (42::int)))]"
  have h: "0 < length (shared_states ?\<sigma>)" "content (shared_states ?\<sigma> ! 0) = Ready (Inr (Value 42))"
    "Payload \<noteq> Void" "\<not> is_future_type Payload" "result_of identity_callback = Payload"
    "body identity_callback [Value 42] = Inr (Value 42)"
    by (simp_all add: state_of_def identity_callback_def)
  have c: "ident identity_callback = 0"
    by (simp add: identity_callback_def)
  from then_identity_deferred [OF h, of 0] show ?thesis by (simp add: c)
qed

section \<open>Shared futures as sources\<close>


section \<open>Promises as sources\<close>

text \<open>
  C10. Once a call of \<^verbatim>\<open>then\<close> on a promise has returned, under a policy of either kind,
  every further call of \<^verbatim>\<open>then\<close> on that promise raises
  \<^verbatim>\<open>future_error(future_already_retrieved)\<close>, under a policy of either kind, and leaves
  the state as it is. Settling the promise is still what it was before the first call: it
  succeeds if the promise was not settled, and raises \<^verbatim>\<open>promise_already_satisfied\<close>
  otherwise.
\<close>

theorem then_promise_twice:
  assumes "then_promise T (Some p) f l \<sigma> = Return k \<sigma>1 \<or>
     then_detached_promise T (Some p) f policy \<sigma> = Return k \<sigma>1"
  shows "then_promise T' (Some p) g l' \<sigma>1 = Raise (future_error future_already_retrieved) \<sigma>1 \<and>
     then_detached_promise T' (Some p) g policy' \<sigma>1 = Raise (future_error future_already_retrieved) \<sigma>1 \<and>
     settle (Some p) r \<sigma>1 =
       (case content (shared_states \<sigma> ! p) of
          Pending \<Rightarrow> Return () (set_content p (Ready r) \<sigma>1)
        | _ \<Rightarrow> Raise (future_error promise_already_satisfied) \<sigma>1)"
proof -
  from assms have "p < length (shared_states \<sigma>1) \<and> retrieved (shared_states \<sigma>1 ! p) \<and>
      content (shared_states \<sigma>1 ! p) = content (shared_states \<sigma> ! p)"
  proof
    assume "then_promise T (Some p) f l \<sigma> = Return k \<sigma>1"
    from then_promise_Return [OF this] show ?thesis by simp
  next
    assume "then_detached_promise T (Some p) f policy \<sigma> = Return k \<sigma>1"
    from then_detached_promise_Return [OF this] show ?thesis by simp
  qed
  then have p: "p < length (shared_states \<sigma>1)" "retrieved (shared_states \<sigma>1 ! p)"
    and c: "content (shared_states \<sigma>1 ! p) = content (shared_states \<sigma> ! p)" by simp_all
  have "settle (Some p) r \<sigma>1 =
       (case content (shared_states \<sigma> ! p) of
          Pending \<Rightarrow> Return () (set_content p (Ready r) \<sigma>1)
        | _ \<Rightarrow> Raise (future_error promise_already_satisfied) \<sigma>1)"
    using p(1) c by (cases "content (shared_states \<sigma> ! p)") (simp_all add: settle_def)
  then show ?thesis
    using p by (simp add: then_promise_def then_detached_promise_def get_future_again)
qed

theorem then_promise_twice_witness:
  "then_promise Payload (Some 0) identity_callback deferred fresh_promise =
     Return (Future (Some 1)) chained_promise \<and>
   then_promise Payload (Some 0) increment_callback async chained_promise =
     Raise (future_error future_already_retrieved) chained_promise \<and>
   then_detached_promise Payload (Some 0) increment_callback detached chained_promise =
     Raise (future_error future_already_retrieved) chained_promise \<and>
   set_value (Some 0) (Value 5) chained_promise =
     Return () (set_content 0 (Ready (Inr (Value 5))) chained_promise)"
proof -
  have p: "0 < length (shared_states fresh_promise)" "\<not> retrieved (shared_states fresh_promise ! 0)"
    by (simp_all add: fresh_promise_def)
  have c: "content (shared_states fresh_promise ! 0) = Pending"
    "length (shared_states fresh_promise) = 1"
    by (simp_all add: fresh_promise_def)
  have first: "then_promise Payload (Some 0) identity_callback deferred fresh_promise =
      Return (Future (Some 1)) chained_promise"
    using then_promise_eq [OF p, of Payload identity_callback deferred]
    by (simp add: c chained_promise_def chain_state_deferred)
  then have "then_promise Payload (Some 0) identity_callback deferred fresh_promise =
      Return (Future (Some 1)) chained_promise \<or>
     then_detached_promise Payload (Some 0) identity_callback detached fresh_promise =
      Return (Future (Some 1)) chained_promise" by (rule disjI1)
  from then_promise_twice [OF this, of Payload increment_callback async detached "Inr (Value 5)"] first
  show ?thesis by (simp add: c set_value_def)
qed

text \<open>
  C7. \<^verbatim>\<open>then\<close> on a promise \<open>p\<close>, under a launch policy of the standard library and
  under a \<^verbatim>\<open>then_launch\<close> policy, in every state. If the call returns, the promise
  still has its shared state, the state holds what it held, every other shared state and
  the record of invocations are as they were, and settling the promise ends as it would
  have ended before the call; what the call leaves on the promise is the mark that its
  future has been retrieved, which is how the chain obtained that future: the new unit of
  work (the task of the new shared state, or the detached thread) holds the future of
  \<open>p\<close> as its source. If the call raises (the promise has no shared state, or its future
  was retrieved before), nothing has changed. Under a \<^verbatim>\<open>then_launch\<close> policy other than
  \<open>detached\<close> the assertion of C9 fails.

  That the chain is fed by the promise: for a promise that is not settled, of a type that
  is not a future type, in a chain that compiles, the result of the chain is not there
  before the owner settles the promise; once the owner sets a value \<open>v\<close>, requesting the
  result invokes the callback with \<open>v\<close> (with nothing for \<^verbatim>\<open>promise<void>\<close>) and yields
  what that invocation yields; once the owner sets an error \<open>e\<close> instead, requesting the
  result raises \<open>e\<close>, the callback not invoked.
\<close>

theorem then_promise_keeps_promise:
  "(case then_promise T p f l \<sigma> of
      Return k \<sigma>1 \<Rightarrow>
        (\<exists>a. p = Some a \<and> a < length (shared_states \<sigma>) \<and>
           \<not> retrieved (shared_states \<sigma> ! a) \<and> retrieved (shared_states \<sigma>1 ! a) \<and>
           content (shared_states \<sigma>1 ! a) = content (shared_states \<sigma> ! a) \<and>
           (\<forall>b < length (shared_states \<sigma>). b \<noteq> a \<longrightarrow> shared_states \<sigma>1 ! b = shared_states \<sigma> ! b) \<and>
           calls \<sigma>1 = calls \<sigma> \<and>
           settle p r \<sigma>1 =
             (case settle p r \<sigma> of
                Return u \<sigma>' \<Rightarrow> Return u (set_content a (Ready r) \<sigma>1)
              | Raise e \<sigma>' \<Rightarrow> Raise e \<sigma>1
              | other \<Rightarrow> other) \<and>
           k = Future (Some (length (shared_states \<sigma>))) \<and>
           length (shared_states \<sigma>1) = Suc (length (shared_states \<sigma>)) \<and>
           shared_states \<sigma>1 ! length (shared_states \<sigma>) =
             \<lparr>content = Task l (Then_task T (Future p) f), retrieved = True\<rparr>)
    | Raise e \<sigma>1 \<Rightarrow> \<sigma>1 = \<sigma>
    | _ \<Rightarrow> False) \<and>
   (case then_detached_promise T p f policy \<sigma> of
      Return k \<sigma>1 \<Rightarrow>
        (\<exists>a. p = Some a \<and> a < length (shared_states \<sigma>) \<and>
           \<not> retrieved (shared_states \<sigma> ! a) \<and> retrieved (shared_states \<sigma>1 ! a) \<and>
           content (shared_states \<sigma>1 ! a) = content (shared_states \<sigma> ! a) \<and>
           (\<forall>b < length (shared_states \<sigma>). b \<noteq> a \<longrightarrow> shared_states \<sigma>1 ! b = shared_states \<sigma> ! b) \<and>
           calls \<sigma>1 = calls \<sigma> \<and>
           settle p r \<sigma>1 =
             (case settle p r \<sigma> of
                Return u \<sigma>' \<Rightarrow> Return u (set_content a (Ready r) \<sigma>1)
              | Raise e \<sigma>' \<Rightarrow> Raise e \<sigma>1
              | other \<Rightarrow> other) \<and>
           k = Future (Some (length (shared_states \<sigma>))) \<and>
           length (shared_states \<sigma>1) = Suc (length (shared_states \<sigma>)) \<and>
           content (shared_states \<sigma>1 ! length (shared_states \<sigma>)) = Pending \<and>
           threads \<sigma>1 =
             threads \<sigma> @
             [Thread (Some (length (shared_states \<sigma>))) (innermost (result_of f)) T (Future p) f])
    | Raise e \<sigma>1 \<Rightarrow> \<sigma>1 = \<sigma>
    | Aborted \<Rightarrow> policy \<noteq> detached
    | _ \<Rightarrow> False) \<and>
   (c < length (shared_states \<sigma>) \<and> \<not> retrieved (shared_states \<sigma> ! c) \<and>
    content (shared_states \<sigma> ! c) = Pending \<and> \<not> is_future_type T \<and>
    then_helper_instantiates T (Some a_future) f \<longrightarrow>
      (\<exists>k \<sigma>1 \<sigma>2 \<sigma>3 \<sigma>4.
         then_promise T (Some c) f l \<sigma> = Return k \<sigma>1 \<and>
         future_get (wait (Suc (Suc n))) (handle_of k) \<sigma>1 = Blocked \<and>
         set_value (Some c) v \<sigma>1 = Return () \<sigma>2 \<and> calls \<sigma>2 = calls \<sigma> \<and>
         future_get (wait (Suc (Suc n))) (handle_of k) \<sigma>2 =
           (case then_invoke_helper (wait (Suc n)) f (if T = Void then [] else [v]) \<sigma>2 of
              Return y \<sigma>' \<Rightarrow> Return y (set_content (length (shared_states \<sigma>)) (Ready (Inr y)) \<sigma>')
            | Raise x \<sigma>' \<Rightarrow> Raise x (set_content (length (shared_states \<sigma>)) (Ready (Inl x)) \<sigma>')
            | other \<Rightarrow> other) \<and>
         set_exception (Some c) e \<sigma>1 = Return () \<sigma>3 \<and>
         future_get (wait (Suc (Suc n))) (handle_of k) \<sigma>3 = Raise e \<sigma>4 \<and> calls \<sigma>4 = calls \<sigma>) \<and>
      (\<exists>k \<sigma>1 \<sigma>2 \<sigma>3 \<sigma>4.
         then_detached_promise T (Some c) f detached \<sigma> = Return k \<sigma>1 \<and>
         requested_after_run (Suc (Suc n)) \<sigma> (Return k \<sigma>1) = Blocked \<and>
         set_value (Some c) v \<sigma>1 = Return () \<sigma>2 \<and> calls \<sigma>2 = calls \<sigma> \<and>
         requested_after_run (Suc (Suc n)) \<sigma> (Return k \<sigma>2) =
           (case then_invoke_helper (wait (Suc (Suc n))) f (if T = Void then [] else [v]) \<sigma>2 of
              Return y \<sigma>' \<Rightarrow>
                Return (if innermost (result_of f) = Void then Unit else y)
                  (set_content (length (shared_states \<sigma>))
                     (Ready (Inr (if innermost (result_of f) = Void then Unit else y))) \<sigma>')
            | Raise x \<sigma>' \<Rightarrow> Raise x (set_content (length (shared_states \<sigma>)) (Ready (Inl x)) \<sigma>')
            | other \<Rightarrow> other) \<and>
         set_exception (Some c) e \<sigma>1 = Return () \<sigma>3 \<and>
         requested_after_run (Suc (Suc n)) \<sigma> (Return k \<sigma>3) = Raise e \<sigma>4 \<and>
         calls \<sigma>4 = calls \<sigma>))"
proof (intro conjI impI; (elim conjE)?)
  show "case then_promise T p f l \<sigma> of
      Return k \<sigma>1 \<Rightarrow>
        (\<exists>a. p = Some a \<and> a < length (shared_states \<sigma>) \<and>
           \<not> retrieved (shared_states \<sigma> ! a) \<and> retrieved (shared_states \<sigma>1 ! a) \<and>
           content (shared_states \<sigma>1 ! a) = content (shared_states \<sigma> ! a) \<and>
           (\<forall>b < length (shared_states \<sigma>). b \<noteq> a \<longrightarrow> shared_states \<sigma>1 ! b = shared_states \<sigma> ! b) \<and>
           calls \<sigma>1 = calls \<sigma> \<and>
           settle p r \<sigma>1 =
             (case settle p r \<sigma> of
                Return u \<sigma>' \<Rightarrow> Return u (set_content a (Ready r) \<sigma>1)
              | Raise e \<sigma>' \<Rightarrow> Raise e \<sigma>1
              | other \<Rightarrow> other) \<and>
           k = Future (Some (length (shared_states \<sigma>))) \<and>
           length (shared_states \<sigma>1) = Suc (length (shared_states \<sigma>)) \<and>
           shared_states \<sigma>1 ! length (shared_states \<sigma>) =
             \<lparr>content = Task l (Then_task T (Future p) f), retrieved = True\<rparr>)
    | Raise e \<sigma>1 \<Rightarrow> \<sigma>1 = \<sigma>
    | _ \<Rightarrow> False"
    using get_future_cases [of p \<sigma>]
  proof (elim disjE exE conjE)
    fix a
    assume a: "p = Some a" "a < length (shared_states \<sigma>)" "\<not> retrieved (shared_states \<sigma> ! a)"
    let ?\<sigma>1 = "chain_state l (Then_task T (Future (Some a)) f) (mark_retrieved a \<sigma>)"
    have new: "shared_states ?\<sigma>1 ! length (shared_states \<sigma>) =
        \<lparr>content = Task l (Then_task T (Future (Some a)) f), retrieved = True\<rparr>"
      using chain_state_simps(2) [of l "Then_task T (Future (Some a)) f" "mark_retrieved a \<sigma>"]
      by simp
    have "settle (Some a) r ?\<sigma>1 =
        (case settle (Some a) r \<sigma> of
           Return u \<sigma>' \<Rightarrow> Return u (set_content a (Ready r) ?\<sigma>1)
         | Raise e \<sigma>' \<Rightarrow> Raise e ?\<sigma>1
         | other \<Rightarrow> other)"
      using a(2) by (intro settle_after) simp_all
    with a new show ?thesis
      by (simp add: then_promise_eq [OF a(2,3)])
  next
    fix e
    assume "get_future p \<sigma> = Raise e \<sigma>"
    then show ?thesis by (simp add: then_promise_def)
  qed
next
  show "case then_detached_promise T p f policy \<sigma> of
      Return k \<sigma>1 \<Rightarrow>
        (\<exists>a. p = Some a \<and> a < length (shared_states \<sigma>) \<and>
           \<not> retrieved (shared_states \<sigma> ! a) \<and> retrieved (shared_states \<sigma>1 ! a) \<and>
           content (shared_states \<sigma>1 ! a) = content (shared_states \<sigma> ! a) \<and>
           (\<forall>b < length (shared_states \<sigma>). b \<noteq> a \<longrightarrow> shared_states \<sigma>1 ! b = shared_states \<sigma> ! b) \<and>
           calls \<sigma>1 = calls \<sigma> \<and>
           settle p r \<sigma>1 =
             (case settle p r \<sigma> of
                Return u \<sigma>' \<Rightarrow> Return u (set_content a (Ready r) \<sigma>1)
              | Raise e \<sigma>' \<Rightarrow> Raise e \<sigma>1
              | other \<Rightarrow> other) \<and>
           k = Future (Some (length (shared_states \<sigma>))) \<and>
           length (shared_states \<sigma>1) = Suc (length (shared_states \<sigma>)) \<and>
           content (shared_states \<sigma>1 ! length (shared_states \<sigma>)) = Pending \<and>
           threads \<sigma>1 =
             threads \<sigma> @
             [Thread (Some (length (shared_states \<sigma>))) (innermost (result_of f)) T (Future p) f])
    | Raise e \<sigma>1 \<Rightarrow> \<sigma>1 = \<sigma>
    | Aborted \<Rightarrow> policy \<noteq> detached
    | _ \<Rightarrow> False"
    using get_future_cases [of p \<sigma>]
  proof (elim disjE exE conjE)
    fix a
    assume a: "p = Some a" "a < length (shared_states \<sigma>)" "\<not> retrieved (shared_states \<sigma> ! a)"
      and g: "get_future p \<sigma> = Return (Future (Some a)) (mark_retrieved a \<sigma>)"
    let ?\<sigma>1 = "detached_state T (Future (Some a)) f (mark_retrieved a \<sigma>)"
    have new: "content (shared_states ?\<sigma>1 ! length (shared_states \<sigma>)) = Pending"
      using detached_state_simps(2) [of T "Future (Some a)" f "mark_retrieved a \<sigma>"] by simp
    have s: "settle (Some a) r ?\<sigma>1 =
        (case settle (Some a) r \<sigma> of
           Return u \<sigma>' \<Rightarrow> Return u (set_content a (Ready r) ?\<sigma>1)
         | Raise e \<sigma>' \<Rightarrow> Raise e ?\<sigma>1
         | other \<Rightarrow> other)"
      using a(2) by (intro settle_after) simp_all
    show ?thesis
    proof (cases "policy = detached")
      case True
      with a new s show ?thesis
        by (simp add: then_detached_promise_eq [OF a(2,3)])
    next
      case False
      with g show ?thesis
        by (simp add: then_detached_promise_def then_detached_future_def)
    qed
  next
    fix e
    assume "get_future p \<sigma> = Raise e \<sigma>"
    then show ?thesis by (simp add: then_detached_promise_def)
  qed
next
  define args where "args = (if T = Void then [] else [v])"
  assume c: "c < length (shared_states \<sigma>)" "\<not> retrieved (shared_states \<sigma> ! c)"
    and pend: "content (shared_states \<sigma> ! c) = Pending"
    and T: "\<not> is_future_type T" and i: "then_helper_instantiates T (Some a_future) f"
  let ?k = "length (shared_states \<sigma>)"
  let ?s = "Future (Some c) :: 'a val"
  have i': "then_helper_instantiates T (class_of ?s) f" using i by simp
  have src: "?s = Future (Some c) \<or> ?s = SharedFuture (Some c)" by simp
  {
    let ?\<sigma>1 = "chain_state l (Then_task T ?s f) (mark_retrieved c \<sigma>)"
    let ?\<sigma>2 = "set_content c (Ready (Inr v)) ?\<sigma>1"
    let ?\<sigma>3 = "set_content c (Ready (Inl e)) ?\<sigma>1"
    have c1: "c < length (shared_states ?\<sigma>1)" "content (shared_states ?\<sigma>1 ! c) = Pending"
      "c \<noteq> ?k" "?k < length (shared_states ?\<sigma>1)"
      using c(1) pend by simp_all
    have task: "content (shared_states ?\<sigma>1 ! ?k) = Task l (Then_task T ?s f)"
      using chain_state_simps(2) [of l "Then_task T ?s f" "mark_retrieved c \<sigma>"] by simp
    have task2: "content (shared_states ?\<sigma>2 ! ?k) = Task l (Then_task T ?s f)"
      "content (shared_states ?\<sigma>3 ! ?k) = Task l (Then_task T ?s f)"
      using task c1(3) by simp_all
    have 1: "future_get (wait (Suc (Suc n))) (Some ?k) ?\<sigma>1 = Blocked"
      using then_helper_dispatch_pending [OF c1(1,2) T i, of n] c1(4) task
      by (simp add: future_get_def wait_Task [where l = l])
    have 2: "set_value (Some c) v ?\<sigma>1 = Return () ?\<sigma>2"
      using c1(1,2) by (simp add: set_value_def settle_Pending)
    have 3: "future_get (wait (Suc (Suc n))) (Some ?k) ?\<sigma>2 =
        (case then_invoke_helper (wait (Suc n)) f args ?\<sigma>2 of
           Return y \<sigma>' \<Rightarrow> Return y (set_content ?k (Ready (Inr y)) \<sigma>')
         | Raise x \<sigma>' \<Rightarrow> Raise x (set_content ?k (Ready (Inl x)) \<sigma>')
         | other \<Rightarrow> other)"
      unfolding args_def
      using then_helper_dispatch_value [OF _ _ T i, of c ?\<sigma>2 v n] c1(1,4) task2(1)
      by (simp add: future_get_def wait_Task [where l = l])
    have 4: "set_exception (Some c) e ?\<sigma>1 = Return () ?\<sigma>3"
      using c1(1,2) by (simp add: set_exception_def settle_Pending)
    have 5: "future_get (wait (Suc (Suc n))) (Some ?k) ?\<sigma>3 =
        Raise e (set_content ?k (Ready (Inl e)) ?\<sigma>3)"
      using then_helper_dispatch_source_error [OF _ _ src i', of ?\<sigma>3 e n] c1(1,4) task2(2)
      by (simp add: future_get_def wait_Task [where l = l])
    from 1 2 3 4 5
    show "\<exists>k \<sigma>1 \<sigma>2 \<sigma>3 \<sigma>4.
         then_promise T (Some c) f l \<sigma> = Return k \<sigma>1 \<and>
         future_get (wait (Suc (Suc n))) (handle_of k) \<sigma>1 = Blocked \<and>
         set_value (Some c) v \<sigma>1 = Return () \<sigma>2 \<and> calls \<sigma>2 = calls \<sigma> \<and>
         future_get (wait (Suc (Suc n))) (handle_of k) \<sigma>2 =
           (case then_invoke_helper (wait (Suc n)) f (if T = Void then [] else [v]) \<sigma>2 of
              Return y \<sigma>' \<Rightarrow> Return y (set_content (length (shared_states \<sigma>)) (Ready (Inr y)) \<sigma>')
            | Raise x \<sigma>' \<Rightarrow> Raise x (set_content (length (shared_states \<sigma>)) (Ready (Inl x)) \<sigma>')
            | other \<Rightarrow> other) \<and>
         set_exception (Some c) e \<sigma>1 = Return () \<sigma>3 \<and>
         future_get (wait (Suc (Suc n))) (handle_of k) \<sigma>3 = Raise e \<sigma>4 \<and> calls \<sigma>4 = calls \<sigma>"
      unfolding args_def [symmetric]
      by (simp add: then_promise_eq [OF c])
  }
  {
    let ?\<sigma>1 = "detached_state T ?s f (mark_retrieved c \<sigma>)"
    let ?\<sigma>2 = "set_content c (Ready (Inr v)) ?\<sigma>1"
    let ?\<sigma>3 = "set_content c (Ready (Inl e)) ?\<sigma>1"
    let ?t = "Thread (Some ?k) (innermost (result_of f)) T ?s f"
    have c1: "c < length (shared_states ?\<sigma>1)" "content (shared_states ?\<sigma>1 ! c) = Pending"
      "c \<noteq> ?k" "?k < length (shared_states ?\<sigma>1)"
      using c(1) pend by simp_all
    have new: "content (shared_states ?\<sigma>1 ! ?k) = Pending"
      using detached_state_simps(2) [of T ?s f "mark_retrieved c \<sigma>"] by simp
    have new2: "content (shared_states ?\<sigma>2 ! ?k) = Pending"
      "content (shared_states ?\<sigma>3 ! ?k) = Pending"
      using new c1(3) by simp_all
    have th: "drop (length (threads \<sigma>)) (threads ?\<sigma>1) = [?t]"
      "drop (length (threads \<sigma>)) (threads ?\<sigma>2) = [?t]"
      "drop (length (threads \<sigma>)) (threads ?\<sigma>3) = [?t]"
      by simp_all
    have 1: "requested_after_run (Suc (Suc n)) \<sigma> (Return (Future (Some ?k)) ?\<sigma>1) = Blocked"
      unfolding requested_after_run_Thread [OF th(1)]
      using run_thread_then_get [of ?k ?\<sigma>1 "Suc n" "innermost (result_of f)" T ?s f]
        then_helper_dispatch_pending [OF c1(1,2) T i, of "Suc n"] c1(4) new
      by simp
    have 2: "set_value (Some c) v ?\<sigma>1 = Return () ?\<sigma>2"
      using c1(1,2) by (simp add: set_value_def settle_Pending)
    have 3: "requested_after_run (Suc (Suc n)) \<sigma> (Return (Future (Some ?k)) ?\<sigma>2) =
        (case then_invoke_helper (wait (Suc (Suc n))) f args ?\<sigma>2 of
           Return y \<sigma>' \<Rightarrow>
             Return (if innermost (result_of f) = Void then Unit else y)
               (set_content ?k (Ready (Inr (if innermost (result_of f) = Void then Unit else y))) \<sigma>')
         | Raise x \<sigma>' \<Rightarrow> Raise x (set_content ?k (Ready (Inl x)) \<sigma>')
         | other \<Rightarrow> other)"
      unfolding requested_after_run_Thread [OF th(2)] args_def
      using run_thread_then_get [of ?k ?\<sigma>2 "Suc n" "innermost (result_of f)" T ?s f]
        then_helper_dispatch_value [OF _ _ T i, of c ?\<sigma>2 v "Suc n"] c1(1,4) new2(1)
      by simp
    have 4: "set_exception (Some c) e ?\<sigma>1 = Return () ?\<sigma>3"
      using c1(1,2) by (simp add: set_exception_def settle_Pending)
    have 5: "requested_after_run (Suc (Suc n)) \<sigma> (Return (Future (Some ?k)) ?\<sigma>3) =
        Raise e (set_content ?k (Ready (Inl e)) ?\<sigma>3)"
      unfolding requested_after_run_Thread [OF th(3)]
      using run_thread_then_get [of ?k ?\<sigma>3 "Suc n" "innermost (result_of f)" T ?s f]
        then_helper_dispatch_source_error [OF _ _ src i', of ?\<sigma>3 e "Suc n"] c1(1,4) new2(2)
      by simp
    from 1 2 3 4 5
    show "\<exists>k \<sigma>1 \<sigma>2 \<sigma>3 \<sigma>4.
         then_detached_promise T (Some c) f detached \<sigma> = Return k \<sigma>1 \<and>
         requested_after_run (Suc (Suc n)) \<sigma> (Return k \<sigma>1) = Blocked \<and>
         set_value (Some c) v \<sigma>1 = Return () \<sigma>2 \<and> calls \<sigma>2 = calls \<sigma> \<and>
         requested_after_run (Suc (Suc n)) \<sigma> (Return k \<sigma>2) =
           (case then_invoke_helper (wait (Suc (Suc n))) f (if T = Void then [] else [v]) \<sigma>2 of
              Return y \<sigma>' \<Rightarrow>
                Return (if innermost (result_of f) = Void then Unit else y)
                  (set_content (length (shared_states \<sigma>))
                     (Ready (Inr (if innermost (result_of f) = Void then Unit else y))) \<sigma>')
            | Raise x \<sigma>' \<Rightarrow> Raise x (set_content (length (shared_states \<sigma>)) (Ready (Inl x)) \<sigma>')
            | other \<Rightarrow> other) \<and>
         set_exception (Some c) e \<sigma>1 = Return () \<sigma>3 \<and>
         requested_after_run (Suc (Suc n)) \<sigma> (Return k \<sigma>3) = Raise e \<sigma>4 \<and>
         calls \<sigma>4 = calls \<sigma>"
      unfolding args_def [symmetric]
      by (simp add: then_detached_promise_eq [OF c])
  }
qed

theorem then_promise_keeps_promise_witness:
  "\<exists>k \<sigma>1 \<sigma>2 \<sigma>4.
     then_promise Payload (Some 0) increment_callback async fresh_promise = Return k \<sigma>1 \<and>
     future_get (wait (Suc (Suc 0))) (handle_of k) \<sigma>1 = Blocked \<and>
     set_value (Some 0) (Value 5) \<sigma>1 = Return () \<sigma>2 \<and>
     future_get (wait (Suc (Suc 0))) (handle_of k) \<sigma>2 = Return (Value 6) \<sigma>4 \<and>
     calls \<sigma>4 = [(4, [Value 5])]"
proof -
  have h: "0 < length (shared_states fresh_promise) \<and> \<not> retrieved (shared_states fresh_promise ! 0) \<and>
      content (shared_states fresh_promise ! 0) = Pending \<and> \<not> is_future_type Payload \<and>
      then_helper_instantiates Payload (Some a_future) increment_callback"
    by (simp add: fresh_promise_def then_helper_instantiates_def
        then_invoke_helper_instantiates_def increment_callback_def)
  have inv: "\<And>\<sigma>'. then_invoke_helper (wait (Suc 0)) increment_callback [Value 5] \<sigma>' =
      Return (Value 6) (record_call increment_callback [Value 5] \<sigma>')"
    by (rule then_invoke_helper_plain) (simp_all add: increment_callback_def)
  have c: "calls fresh_promise = []" "ident increment_callback = 4"
    by (simp_all add: fresh_promise_def increment_callback_def)
  from then_promise_keeps_promise [where \<sigma> = fresh_promise and c = 0 and T = Payload
      and f = increment_callback and l = async and n = 0 and v = "Value 5" and e = "thrown 7"
      and p = "Some 0" and policy = detached and r = "Inr Unit",
      THEN conjunct2, THEN conjunct2, THEN mp, OF h, THEN conjunct1]
  obtain k \<sigma>1 \<sigma>2 where
    1: "then_promise Payload (Some 0) increment_callback async fresh_promise = Return k \<sigma>1"
      "future_get (wait (Suc (Suc 0))) (handle_of k) \<sigma>1 = Blocked"
      "set_value (Some 0) (Value 5) \<sigma>1 = Return () \<sigma>2" "calls \<sigma>2 = calls fresh_promise"
    and 2: "future_get (wait (Suc (Suc 0))) (handle_of k) \<sigma>2 =
      (case then_invoke_helper (wait (Suc 0)) increment_callback
              (if Payload = Void then [] else [Value 5]) \<sigma>2 of
         Return y \<sigma>' \<Rightarrow>
           Return y (set_content (length (shared_states fresh_promise)) (Ready (Inr y)) \<sigma>')
       | Raise x \<sigma>' \<Rightarrow>
           Raise x (set_content (length (shared_states fresh_promise)) (Ready (Inl x)) \<sigma>')
       | other \<Rightarrow> other)"
    by (elim exE conjE)
  from 2 have "future_get (wait (Suc (Suc 0))) (handle_of k) \<sigma>2 =
      Return (Value 6)
        (set_content (length (shared_states fresh_promise)) (Ready (Inr (Value 6)))
           (record_call increment_callback [Value 5] \<sigma>2))"
    by (simp add: inv)
  moreover have "calls (set_content (length (shared_states fresh_promise)) (Ready (Inr (Value 6)))
           (record_call increment_callback [Value 5] \<sigma>2)) = [(4, [Value 5])]"
    using 1(4) by (simp add: c)
  ultimately show ?thesis using 1(1,2,3) by blast
qed

section \<open>The assertion of the detached overloads\<close>

text \<open>
  C9. The claim: the assertion \<^verbatim>\<open>policy == then_launch::detached\<close> holds on every call
  of an overload that takes a \<^verbatim>\<open>then_launch\<close>. \<^verbatim>\<open>then_launch\<close> is a scoped enumeration
  over \<^verbatim>\<open>int\<close> with one enumerator; a caller can pass any other value of the type, such as
  \<^verbatim>\<open>static_cast<then_launch>(0)\<close>, and then the assertion fails.
\<close>

theorem then_launch_other_value:
  "then_detached_future Payload (Some 0) identity_callback 0 (state_of [Ready (Inr (Value 1))]) = Aborted"
  by (simp add: then_detached_future_def detached_def)

text \<open>
  C9, as the code has it. In each overload that takes a \<^verbatim>\<open>then_launch\<close> the assertion
  fails exactly if the policy is not \<open>detached\<close>: in the overloads for a future and a shared
  future, which assert, in the overload for a reference to a future, which passes its
  policy on, and in the overload for a promise, which passes its policy on once it has
  retrieved the future of the promise (a call that raises there never reaches the
  assertion). So the assertion holds on every call with the policy \<open>detached\<close>.
\<close>

theorem then_launch_assertion:
  "(then_detached_future T s f policy \<sigma> = Aborted) = (policy \<noteq> detached) \<and>
   (then_detached_future_ref T s f policy \<sigma> = Aborted) = (policy \<noteq> detached) \<and>
   (then_detached_shared_future T s f policy \<sigma> = Aborted) = (policy \<noteq> detached) \<and>
   (then_detached_promise T s f policy \<sigma> = Aborted) =
     (policy \<noteq> detached \<and> (\<exists>k \<sigma>'. get_future s \<sigma> = Return k \<sigma>'))"
proof -
  have 1: "(then_detached_future T s f policy \<sigma> = Aborted) = (policy \<noteq> detached)" for s and \<sigma> :: "'a state"
    by (cases "policy = detached") (simp_all add: then_detached_future_eq, simp add: then_detached_future_def)
  have 3: "(then_detached_shared_future T s f policy \<sigma> = Aborted) = (policy \<noteq> detached)"
    by (cases "policy = detached")
       (simp_all add: then_detached_shared_future_eq, simp add: then_detached_shared_future_def)
  have 4: "(then_detached_promise T s f policy \<sigma> = Aborted) =
     (policy \<noteq> detached \<and> (\<exists>k \<sigma>'. get_future s \<sigma> = Return k \<sigma>'))"
  proof -
    have "get_future s \<sigma> \<noteq> Aborted"
      by (cases s) (simp_all add: get_future_def)
    then show ?thesis
      by (cases "get_future s \<sigma>") (simp_all add: then_detached_promise_def 1)
  qed
  have 2: "(then_detached_future_ref T s f policy \<sigma> = Aborted) = (policy \<noteq> detached)"
    using 1 [of s \<sigma>]
    by (cases "then_detached_future T s f policy \<sigma>") (simp_all add: then_detached_future_ref_def)
  from 1 2 3 4 show ?thesis by simp
qed

section \<open>Fluent chains\<close>

text \<open>
  C6. \<^verbatim>\<open>source.then(f).then(g)\<close> on a \<^verbatim>\<open>ThenableFuture\<close> against
  \<^verbatim>\<open>then(then(source, f), g)\<close> on the future it derives from, for all callbacks, all
  policies (given or defaulted) and all states: the two end the same way and leave the
  same state, and where they return, the fluent chain returns the future of the nested
  calls wrapped in a \<^verbatim>\<open>ThenableFuture\<close>; so requesting the result of one is requesting the
  result of the other.
\<close>

theorem fluent_chain:
  "and_then (ThenableFuture_then T this f p \<sigma>) (\<lambda>k \<sigma>'. ThenableFuture_then T' k g q \<sigma>') =
     and_then
       (and_then (then_overload T (rvalue, Future (base this)) f p \<sigma>)
          (\<lambda>k \<sigma>'. then_overload T' (rvalue, k) g q \<sigma>'))
       (\<lambda>k \<sigma>'. Return (ThenableFuture (handle_of k)) \<sigma>') \<and>
   and_then
     (and_then (ThenableFuture_then T this f p \<sigma>) (\<lambda>k \<sigma>'. ThenableFuture_then T' k g q \<sigma>'))
     (\<lambda>k \<sigma>'. future_get (wait n) (base k) \<sigma>') =
   and_then
     (and_then (then_overload T (rvalue, Future (base this)) f p \<sigma>)
        (\<lambda>k \<sigma>'. then_overload T' (rvalue, k) g q \<sigma>'))
     (\<lambda>k \<sigma>'. future_get (wait n) (handle_of k) \<sigma>')"
proof -
  let ?inner = "then_overload T (rvalue, Future (base this)) f p \<sigma>"
  have 1: "and_then (ThenableFuture_then T this f p \<sigma>) (\<lambda>k \<sigma>'. ThenableFuture_then T' k g q \<sigma>') =
     and_then
       (and_then ?inner (\<lambda>k \<sigma>'. then_overload T' (rvalue, k) g q \<sigma>'))
       (\<lambda>k \<sigma>'. Return (ThenableFuture (handle_of k)) \<sigma>')"
  proof (cases ?inner)
    case (Return k \<sigma>')
    from then_overload_Future [OF this] have "Future (handle_of k) = k" by simp
    with Return show ?thesis
      by (simp add: ThenableFuture_then_def then2_def)
  qed (simp_all add: ThenableFuture_then_def then2_def)
  show ?thesis
    unfolding 1
    by (cases "and_then ?inner (\<lambda>k \<sigma>'. then_overload T' (rvalue, k) g q \<sigma>')") simp_all
qed

end
